theory Spec2Isabelle
  imports Complex_Main "HOL-Library.AList" "HOL-Library.Sublist" "HOL-Library.Char_ord"
    "HOL-Library.List_Lexorder" "HOL-Library.Word"
begin

section \<open>Text primitives of the two scripts\<close>

text \<open>
  Python strings are modelled as \<^typ>\<open>string\<close>: one \<^typ>\<open>char\<close> per code point,
  for texts whose code points are below 256. Python dictionaries keep insertion order,
  so they are association lists with distinct keys: \<^const>\<open>map_of\<close> reads a key and
  \<^const>\<open>AList.update\<close> stores one (in place when the key exists, at the end otherwise).
\<close>

definition is_space :: "char \<Rightarrow> bool" where
  \<comment> \<open>\<open>str.isspace\<close> and the class \<open>\s\<close> of \<open>re\<close> on code points below 256\<close>
  "is_space c = (let n = (of_char c :: nat) in
     (9 \<le> n \<and> n \<le> 13) \<or> (28 \<le> n \<and> n \<le> 32) \<or> n = 133 \<or> n = 160)"

definition is_digit :: "char \<Rightarrow> bool" where
  "is_digit c = (let n = (of_char c :: nat) in 48 \<le> n \<and> n \<le> 57)"

definition is_lower :: "char \<Rightarrow> bool" where
  "is_lower c = (let n = (of_char c :: nat) in 97 \<le> n \<and> n \<le> 122)"

definition is_upper :: "char \<Rightarrow> bool" where
  "is_upper c = (let n = (of_char c :: nat) in 65 \<le> n \<and> n \<le> 90)"

definition is_name_char :: "char \<Rightarrow> bool" where
  \<comment> \<open>the class \<open>[a-zA-Z0-9_]\<close>\<close>
  "is_name_char c = (is_lower c \<or> is_upper c \<or> is_digit c \<or> c = CHR ''_'')"

definition skip_ws :: "string \<Rightarrow> string" where
  "skip_ws s = dropWhile is_space s"

definition strip :: "string \<Rightarrow> string" where
  \<comment> \<open>\<open>str.strip()\<close>\<close>
  "strip s = rev (dropWhile is_space (rev (dropWhile is_space s)))"

definition chop_newline :: "string \<Rightarrow> string" where
  \<comment> \<open>the text up to the place where \<open>$\<close> can match: the end, or before a final newline\<close>
  "chop_newline s = (if s \<noteq> [] \<and> last s = CHR 10 then butlast s else s)"

section \<open>spec\_test\_map.py: the annotation scanner\<close>

definition sec_re_match :: "string \<Rightarrow> string option" where
  \<comment> \<open>\<open>sec_re = ^## +(.+)$\<close>, group 1: the greedy \<open> +\<close> takes every space, and gives
      one back only when nothing else is left for \<open>.+\<close>\<close>
  "sec_re_match l =
     (if \<not> prefix ''##'' l then None
      else let b = chop_newline (drop 2 l); g = dropWhile (\<lambda>c. c = CHR '' '') b in
        if g \<noteq> [] then (if b \<noteq> g \<and> CHR 10 \<notin> set g then Some g else None)
        else if 2 \<le> length b then Some '' '' else None)"

definition fn_name_re_match :: "string \<Rightarrow> string option" where
  \<comment> \<open>\<open>fn_name_re = ^\s*(?:pub\s+)?(?:async\s+)?fn\s+([a-zA-Z0-9_]+)\s*\(\<close>, group 1\<close>
  "fn_name_re_match line =
     (let s0 = skip_ws line;
          s1 = (if prefix ''pub'' s0 \<and> skip_ws (drop 3 s0) \<noteq> drop 3 s0
                then skip_ws (drop 3 s0) else s0);
          s2 = (if prefix ''async'' s1 \<and> skip_ws (drop 5 s1) \<noteq> drop 5 s1
                then skip_ws (drop 5 s1) else s1)
      in if \<not> prefix ''fn'' s2 \<or> skip_ws (drop 2 s2) = drop 2 s2 then None
         else let s3 = skip_ws (drop 2 s2); name = takeWhile is_name_char s3
           in if name \<noteq> [] \<and> prefix ''('' (skip_ws (dropWhile is_name_char s3))
              then Some name else None)"

definition annot_re_match :: "string \<Rightarrow> string option" where
  \<comment> \<open>\<open>annot_re = ^\s*///\s*@spec\s+(.+)$\<close>, group 1: the greedy \<open>\s+\<close> takes all the
      white space, and gives one character back only when nothing else is left\<close>
  "annot_re_match line =
     (let s0 = skip_ws line in
      if \<not> prefix ''///'' s0 then None
      else let s1 = skip_ws (drop 3 s0) in
        if \<not> prefix ''@spec'' s1 then None
        else let b = chop_newline (drop 5 s1); g = skip_ws b in
          if g \<noteq> [] then (if b \<noteq> g \<and> CHR 10 \<notin> set g then Some g else None)
          else if 2 \<le> length b \<and> last b \<noteq> CHR 10 then Some [last b] else None)"

type_synonym spec_map = "(string \<times> string list) list"

definition bind_annot :: "string \<Rightarrow> spec_map \<Rightarrow> string \<Rightarrow> spec_map" where
  \<comment> \<open>\<open>bucket = spec_map.setdefault(sec, []); if ident not in bucket: bucket.append(ident)\<close>\<close>
  "bind_annot ident m sec =
     (let bucket = (case map_of m sec of None \<Rightarrow> [] | Some b \<Rightarrow> b)
      in AList.update sec (if ident \<in> set bucket then bucket else bucket @ [ident]) m)"

definition flush :: "string \<Rightarrow> string \<Rightarrow> string list \<Rightarrow> spec_map \<Rightarrow> spec_map" where
  \<comment> \<open>\<open>flush()\<close>, with the globals it reads as arguments; a \<open>Path\<close> is always true\<close>
  "flush current_path current_fn current_annots m =
     (if current_fn \<noteq> [] \<and> current_annots \<noteq> []
      then foldl (bind_annot (current_path @ ''::'' @ current_fn)) m current_annots
      else m)"

definition scan_line :: "string \<Rightarrow> string list \<times> spec_map \<Rightarrow> string \<Rightarrow> string list \<times> spec_map" where
  \<comment> \<open>one turn of \<open>for line in f\<close>; the state is \<open>(current_annots, spec_map)\<close>\<close>
  "scan_line current_path st line =
     (let annots = (case annot_re_match line of
                      Some g \<Rightarrow> fst st @ [strip g]
                    | None \<Rightarrow> fst st)
      in case fn_name_re_match line of
           Some name \<Rightarrow> ([], flush current_path name annots (snd st))
         | None \<Rightarrow> (annots, snd st))"

definition scan_lines :: "string \<Rightarrow> string list \<times> spec_map \<Rightarrow> string list \<Rightarrow> string list \<times> spec_map" where
  "scan_lines current_path st ls = foldl (scan_line current_path) st ls"

definition scan_file :: "spec_map \<Rightarrow> string \<times> string list \<Rightarrow> spec_map" where
  \<comment> \<open>a file is its relative path and its lines; \<open>current_annots = []\<close> at its start,
      and what is pending at its end is not used\<close>
  "scan_file m f = snd (scan_lines (fst f) ([], m) (snd f))"

definition scan_files :: "(string \<times> string list) list \<Rightarrow> spec_map" where
  \<comment> \<open>the files in the order the two globs yield them\<close>
  "scan_files fs = foldl scan_file [] fs"

definition spec_sections :: "string list \<Rightarrow> string list" where
  \<comment> \<open>\<open>SPEC_SECTIONS\<close>, from the lines of the specification file\<close>
  "spec_sections ls =
     concat (map (\<lambda>l. case sec_re_match (strip l) of Some g \<Rightarrow> [strip g] | None \<Rightarrow> []) ls)"

definition numbered_prefixes :: "string list" where
  "numbered_prefixes =
     [''1.'', ''2.'', ''3.'', ''4.'', ''5.'', ''6.'', ''7.'', ''8.'', ''9.'', ''10.'']"

definition is_numbered :: "string \<Rightarrow> bool" where
  \<comment> \<open>\<open>any(s.startswith(prefix) for prefix in ("1.", ..., "10."))\<close>\<close>
  "is_numbered s = list_ex (\<lambda>p. prefix p s) numbered_prefixes"

definition unmapped :: "string list \<Rightarrow> spec_map \<Rightarrow> string list" where
  "unmapped secs m = filter (\<lambda>s. is_numbered s \<and> map_of m s = None) secs"

definition total_numbered :: "string list \<Rightarrow> nat" where
  "total_numbered secs = length (filter is_numbered secs)"

definition section_coverage :: "string list \<Rightarrow> spec_map \<Rightarrow> rat" where
  \<comment> \<open>\<open>(len(spec_map)/total_numbered*100.0) if total_numbered else 0.0\<close>; the double is
      modelled by the exact quotient\<close>
  "section_coverage secs m =
     (if total_numbered secs \<noteq> 0
      then of_nat (length m) / of_nat (total_numbered secs) * 100 else 0)"

record mapping_report =
  sections :: spec_map
  unmapped_sections :: "string list"
  section_coverage_percent :: rat
  mapped_section_count :: nat
  total_section_count :: nat

definition spec_test_map :: "string list \<Rightarrow> (string \<times> string list) list \<Rightarrow> mapping_report" where
  \<comment> \<open>the script's \<open>report\<close>, from the specification's lines and the scanned files\<close>
  "spec_test_map spec_lines fs =
     (let secs = spec_sections spec_lines; m = scan_files fs
      in \<lparr>sections = m, unmapped_sections = unmapped secs m,
          section_coverage_percent = section_coverage secs m,
          mapped_section_count = length m,
          total_section_count = total_numbered secs\<rparr>)"

definition mapped_numbered :: "string list \<Rightarrow> spec_map \<Rightarrow> string list" where
  "mapped_numbered secs m =
     filter (\<lambda>s. is_numbered s \<and> (case map_of m s of Some b \<Rightarrow> b \<noteq> [] | None \<Rightarrow> False)) secs"

definition claimed_section_coverage :: "string list \<Rightarrow> spec_map \<Rightarrow> rat" where
  "claimed_section_coverage secs m =
     of_nat (length (mapped_numbered secs m)) / of_nat (total_numbered secs) * 100"

fun decimal :: "nat \<Rightarrow> string" where
  "decimal n = (if n < 10 then [char_of (48 + n)]
                else decimal (n div 10) @ [char_of (48 + n mod 10)])"

declare decimal.simps [simp del]

definition begins_with_integer_period :: "string \<Rightarrow> bool" where
  "begins_with_integer_period s =
     (takeWhile is_digit s \<noteq> [] \<and> prefix ''.'' (dropWhile is_digit s))"

definition one_to_ten_period :: "string \<Rightarrow> bool" where
  "one_to_ten_period s = list_ex (\<lambda>n. prefix (decimal n @ ''.'') s) [1..<11]"

section \<open>spec\_diff.py: values, errors and the section extractor\<close>

text \<open>
  What \<open>json.loads\<close> returns. A file that holds JSON is modelled by the value it parses
  to, so that a report written by one run is read back unchanged by the next; numbers
  with a fraction are exact rationals standing for the doubles.
\<close>

datatype json =
    JNull
  | JBool bool
  | JInt int
  | JFloat rat
  | JStr string
  | JArr "json list"
  | JObj "(string \<times> json) list"

datatype py_error = OSError | AttributeError | TypeError | ValueError | OverflowError

definition truthy :: "json \<Rightarrow> bool" where
  \<comment> \<open>the truth value Python gives a loaded value\<close>
  "truthy v = (case v of
       JNull \<Rightarrow> False
     | JBool b \<Rightarrow> b
     | JInt n \<Rightarrow> n \<noteq> 0
     | JFloat r \<Rightarrow> r \<noteq> 0
     | JStr s \<Rightarrow> s \<noteq> []
     | JArr xs \<Rightarrow> xs \<noteq> []
     | JObj kvs \<Rightarrow> kvs \<noteq> [])"

definition py_get :: "json \<Rightarrow> string \<Rightarrow> json \<Rightarrow> py_error + json" where
  \<comment> \<open>\<open>v.get(key, default)\<close>: only a dict has the method\<close>
  "py_get v key dflt = (case v of
       JObj kvs \<Rightarrow> (case map_of kvs key of Some x \<Rightarrow> Inr x | None \<Rightarrow> Inr dflt)
     | _ \<Rightarrow> Inl AttributeError)"

definition py_keys :: "json \<Rightarrow> py_error + string list" where
  \<comment> \<open>\<open>v.keys()\<close>\<close>
  "py_keys v = (case v of JObj kvs \<Rightarrow> Inr (map fst kvs) | _ \<Rightarrow> Inl AttributeError)"

definition is_linebreak :: "char \<Rightarrow> bool" where
  \<comment> \<open>the line boundaries of \<open>str.splitlines\<close> below code point 256, \<open>\r\n\<close> apart\<close>
  "is_linebreak c = (let n = (of_char c :: nat) in
     (10 \<le> n \<and> n \<le> 13) \<or> (28 \<le> n \<and> n \<le> 30) \<or> n = 133)"

fun splitlines_from :: "string \<Rightarrow> string \<Rightarrow> string list" where
  \<comment> \<open>\<open>str.splitlines()\<close>; the first argument is the current line, reversed\<close>
  "splitlines_from cur [] = (if cur = [] then [] else [rev cur])"
| "splitlines_from cur [c] =
     (if is_linebreak c then [rev cur] else [rev (c # cur)])"
| "splitlines_from cur (c # d # cs) =
     (if c = CHR 13 \<and> d = CHR 10 then rev cur # splitlines_from [] cs
      else if is_linebreak c then rev cur # splitlines_from [] (d # cs)
      else splitlines_from (c # cur) (d # cs))"

definition splitlines :: "string \<Rightarrow> string list" where
  "splitlines s = splitlines_from [] s"

definition rstrip :: "string \<Rightarrow> string" where
  "rstrip s = rev (dropWhile is_space (rev s))"

definition section_heading_match :: "string \<Rightarrow> string option" where
  \<comment> \<open>\<open>SECTION_HEADING_RE = ^## +(.+?)\s*$\<close>, group 1: the lazy group is the shortest
      text after the spaces that leaves only white space behind it\<close>
  "section_heading_match line =
     (if \<not> prefix ''##'' line then None
      else let b = drop 2 line; g = dropWhile (\<lambda>c. c = CHR '' '') b; t = rstrip g in
        if b = g then None
        else if t \<noteq> [] then (if CHR 10 \<in> set t then None else Some t)
        else if g \<noteq> [] \<and> hd g \<noteq> CHR 10 then Some [hd g]
        else if 2 \<le> length b - length g then Some '' ''
        else None)"

definition join_lines :: "string list \<Rightarrow> string" where
  \<comment> \<open>\<open>"\n".join(xs)\<close>\<close>
  "join_lines xs = (case xs of [] \<Rightarrow> [] | y # ys \<Rightarrow> y @ concat (map (\<lambda>l. CHR 10 # l) ys))"

definition extract_step ::
  "(string \<times> string list) list \<times> (string \<times> string list) option \<Rightarrow> string
     \<Rightarrow> (string \<times> string list) list \<times> (string \<times> string list) option" where
  \<comment> \<open>one turn of the loop over the lines: the finished sections, and the current title
      with its body lines (\<open>None\<close> while \<open>current_title is None\<close>)\<close>
  "extract_step st line =
     (case section_heading_match line of
        Some g \<Rightarrow>
          (case snd st of
             Some cur \<Rightarrow> (fst st @ [cur], Some (strip g, []))
           | None \<Rightarrow> (fst st, Some (strip g, [])))
      | None \<Rightarrow>
          (case snd st of
             Some cur \<Rightarrow> (fst st, Some (fst cur, snd cur @ [line]))
           | None \<Rightarrow> st))"

definition extract_sections :: "string \<Rightarrow> (string \<times> string) list" where
  "extract_sections spec_content =
     (let st = foldl extract_step ([], None) (splitlines spec_content);
          secs = (case snd st of Some cur \<Rightarrow> fst st @ [cur] | None \<Rightarrow> fst st)
      in map (\<lambda>tb. (fst tb, strip (join_lines (snd tb)))) secs)"


section \<open>The digest: SHA-256 of the UTF-8 bytes, in hexadecimal\<close>

text \<open>
  \<open>hashlib.sha256(text.encode("utf-8")).hexdigest()\<close>, after FIPS 180-4, on 32-bit
  words. Bytes are kept in 32-bit words too, so that four of them pack into one.
\<close>

unbundle bit_operations_syntax

type_synonym u32 = "32 word"

definition rotr :: "nat \<Rightarrow> u32 \<Rightarrow> u32" where
  "rotr n x = (drop_bit n x) OR (push_bit (32 - n) x)"

definition ch :: "u32 \<Rightarrow> u32 \<Rightarrow> u32 \<Rightarrow> u32" where
  "ch x y z = (x AND y) XOR (NOT x AND z)"

definition maj :: "u32 \<Rightarrow> u32 \<Rightarrow> u32 \<Rightarrow> u32" where
  "maj x y z = (x AND y) XOR (x AND z) XOR (y AND z)"

definition bsig0 :: "u32 \<Rightarrow> u32" where
  "bsig0 x = rotr 2 x XOR rotr 13 x XOR rotr 22 x"

definition bsig1 :: "u32 \<Rightarrow> u32" where
  "bsig1 x = rotr 6 x XOR rotr 11 x XOR rotr 25 x"

definition ssig0 :: "u32 \<Rightarrow> u32" where
  "ssig0 x = rotr 7 x XOR rotr 18 x XOR drop_bit 3 x"

definition ssig1 :: "u32 \<Rightarrow> u32" where
  "ssig1 x = rotr 17 x XOR rotr 19 x XOR drop_bit 10 x"

definition sha_k :: "u32 list" where
  "sha_k =
    [0x428A2F98, 0x71374491, 0xB5C0FBCF, 0xE9B5DBA5,
     0x3956C25B, 0x59F111F1, 0x923F82A4, 0xAB1C5ED5,
     0xD807AA98, 0x12835B01, 0x243185BE, 0x550C7DC3,
     0x72BE5D74, 0x80DEB1FE, 0x9BDC06A7, 0xC19BF174,
     0xE49B69C1, 0xEFBE4786, 0x0FC19DC6, 0x240CA1CC,
     0x2DE92C6F, 0x4A7484AA, 0x5CB0A9DC, 0x76F988DA,
     0x983E5152, 0xA831C66D, 0xB00327C8, 0xBF597FC7,
     0xC6E00BF3, 0xD5A79147, 0x06CA6351, 0x14292967,
     0x27B70A85, 0x2E1B2138, 0x4D2C6DFC, 0x53380D13,
     0x650A7354, 0x766A0ABB, 0x81C2C92E, 0x92722C85,
     0xA2BFE8A1, 0xA81A664B, 0xC24B8B70, 0xC76C51A3,
     0xD192E819, 0xD6990624, 0xF40E3585, 0x106AA070,
     0x19A4C116, 0x1E376C08, 0x2748774C, 0x34B0BCB5,
     0x391C0CB3, 0x4ED8AA4A, 0x5B9CCA4F, 0x682E6FF3,
     0x748F82EE, 0x78A5636F, 0x84C87814, 0x8CC70208,
     0x90BEFFFA, 0xA4506CEB, 0xBEF9A3F7, 0xC67178F2]"

definition sha_h0 :: "u32 list" where
  "sha_h0 =
    [0x6A09E667, 0xBB67AE85, 0x3C6EF372, 0xA54FF53A,
     0x510E527F, 0x9B05688C, 0x1F83D9AB, 0x5BE0CD19]"

fun be_words :: "u32 list \<Rightarrow> u32 list" where
  "be_words (a # b # c # d # bs) =
     (push_bit 24 a OR push_bit 16 b OR push_bit 8 c OR d) # be_words bs"
| "be_words _ = []"

fun expand :: "nat \<Rightarrow> u32 list \<Rightarrow> u32 list" where
  \<comment> \<open>the message schedule, newest word first\<close>
  "expand 0 ws = ws"
| "expand (Suc n) ws =
     expand n ((ssig1 (ws ! 1) + ws ! 6 + ssig0 (ws ! 14) + ws ! 15) # ws)"

definition schedule :: "u32 list \<Rightarrow> u32 list" where
  "schedule blk = rev (expand 48 (rev blk))"

fun round_step :: "u32 list \<Rightarrow> u32 \<times> u32 \<Rightarrow> u32 list" where
  "round_step [a, b, c, d, e, f, g, h] (k, w) =
     (let t1 = h + bsig1 e + ch e f g + k + w;
          t2 = bsig0 a + maj a b c
      in [t1 + t2, a, b, c, d + t1, e, f, g])"
| "round_step st _ = st"

definition rounds :: "u32 list \<Rightarrow> u32 list \<Rightarrow> u32 list" where
  "rounds st w = foldl round_step st (zip sha_k w)"

definition compress :: "u32 list \<Rightarrow> u32 list \<Rightarrow> u32 list" where
  "compress st blk = map2 (+) st (rounds st (schedule blk))"

fun blocks :: "nat \<Rightarrow> u32 list \<Rightarrow> u32 list list" where
  "blocks 0 ws = []"
| "blocks (Suc n) ws = take 16 ws # blocks n (drop 16 ws)"

definition utf8_encode :: "string \<Rightarrow> u32 list" where
  \<comment> \<open>the UTF-8 bytes of code points below 256: one byte below 128, two from there\<close>
  "utf8_encode s = concat (map (\<lambda>c. let n = (of_char c :: nat) in
     if n < 128 then [of_nat n] else [of_nat (192 + n div 64), of_nat (128 + n mod 64)]) s)"

definition length_bytes :: "nat \<Rightarrow> u32 list" where
  \<comment> \<open>the message length in bits, as eight bytes, most significant first\<close>
  "length_bytes n = (let l = (of_nat (8 * n) :: 64 word) in
     map (\<lambda>i. ucast (drop_bit (8 * (7 - i)) l AND 255)) [0, 1, 2, 3, 4, 5, 6, 7])"

definition pad :: "u32 list \<Rightarrow> u32 list" where
  "pad bs = bs @ [128] @ replicate ((119 - length bs mod 64) mod 64) 0
     @ length_bytes (length bs)"

definition sha_blocks :: "string \<Rightarrow> u32 list list" where
  "sha_blocks s = (let ws = be_words (pad (utf8_encode s)) in blocks (length ws div 16) ws)"

definition hex_digit :: "nat \<Rightarrow> char" where
  "hex_digit n = ''0123456789abcdef'' ! n"

definition hex32 :: "u32 \<Rightarrow> string" where
  "hex32 w = map (\<lambda>i. hex_digit (unat (drop_bit (4 * (7 - i)) w AND 15))) [0, 1, 2, 3, 4, 5, 6, 7]"

definition sha256 :: "string \<Rightarrow> string" where
  "sha256 s = concat (map hex32 (foldl compress sha_h0 (sha_blocks s)))"


section \<open>spec\_diff.py: drift detection, coverage and the report\<close>

record section_info =
  title :: string
  hash :: string
  changed :: bool

definition prev_hash_of :: "json \<Rightarrow> string \<Rightarrow> py_error + json" where
  \<comment> \<open>\<open>previous.get(title, {}).get("hash") if previous else None\<close>\<close>
  "prev_hash_of previous t =
     (if truthy previous
      then (case py_get previous t (JObj []) of
              Inl e \<Rightarrow> Inl e
            | Inr entry \<Rightarrow> py_get entry ''hash'' JNull)
      else Inr JNull)"

fun section_infos_of :: "json \<Rightarrow> (string \<times> string) list \<Rightarrow> py_error + section_info list" where
  \<comment> \<open>the loop of \<open>build_section_infos\<close>; a stored hash that is no string differs from
      every digest\<close>
  "section_infos_of previous [] = Inr []"
| "section_infos_of previous (tb # rest) =
     (case prev_hash_of previous (fst tb) of
        Inl e \<Rightarrow> Inl e
      | Inr prev_hash \<Rightarrow>
          (case section_infos_of previous rest of
             Inl e \<Rightarrow> Inl e
           | Inr infos \<Rightarrow>
               Inr (\<lparr>title = fst tb, hash = sha256 (snd tb),
                     changed = (prev_hash \<noteq> JNull \<and> prev_hash \<noteq> JStr (sha256 (snd tb)))\<rparr>
                    # infos)))"

definition build_section_infos :: "string \<Rightarrow> json \<Rightarrow> py_error + section_info list" where
  "build_section_infos spec_content previous =
     section_infos_of previous (extract_sections spec_content)"

definition py_lower :: "char \<Rightarrow> char" where
  \<comment> \<open>\<open>str.lower()\<close> on one code point below 256\<close>
  "py_lower c = (let n = (of_char c :: nat) in
     if (65 \<le> n \<and> n \<le> 90) \<or> (192 \<le> n \<and> n \<le> 222 \<and> n \<noteq> 215) then char_of (n + 32) else c)"

function sub_runs :: "(char \<Rightarrow> bool) \<Rightarrow> string \<Rightarrow> string" where
  \<comment> \<open>\<open>re.sub(r"[class]+", " ", t)\<close>: every maximal run of the class becomes one space\<close>
  "sub_runs P [] = []"
| "sub_runs P (c # cs) =
     (if P c then CHR '' '' # sub_runs P (dropWhile P cs) else c # sub_runs P cs)"
  by pat_completeness auto
termination
  by (relation "measure (\<lambda>(P, s). length s)") (auto simp: length_dropWhile_le less_Suc_eq_le)

definition normalize_for_match :: "string \<Rightarrow> string" where
  \<comment> \<open>\<open>_normalize_for_match\<close>\<close>
  "normalize_for_match text =
     (let t0 = map py_lower text;
          t1 = sub_runs (\<lambda>c. c = CHR ''-'' \<or> c = CHR ''_'') t0;
          t2 = sub_runs (\<lambda>c. \<not> (is_lower c \<or> is_digit c \<or> c = CHR '' '')) t1
      in strip (sub_runs is_space t2))"

fun is_substring :: "string \<Rightarrow> string \<Rightarrow> bool" where
  \<comment> \<open>\<open>xs in ys\<close> on strings\<close>
  "is_substring xs [] = (xs = [])"
| "is_substring xs (y # ys) = (prefix xs (y # ys) \<or> is_substring xs ys)"

definition FEATURE_KEYWORDS :: "(string \<times> string list) list" where
  "FEATURE_KEYWORDS =
    [(''Cryptography'', [''HPKE'', ''Hybrid'', ''Kyber'', ''PQ'', ''Post-Quantum'']),
     (''Routing'', [''Multipath'', ''WRR'', ''routing'', ''hop'']),
     (''Transport'', [''QUIC'', ''TCP'', ''Teredo'', ''DATAGRAM'']),
     (''FEC'', [''RaptorQ'', ''RS(255,223)'', ''redundancy'']),
     (''Plugin'', [''Plugin'', ''Frame'', ''Capability'', ''CBOR'']),
     (''Telemetry'', [''Telemetry'', ''Prometheus'', ''OpenTelemetry'', ''metrics'']),
     (''Low Power'', [''Low Power'', ''Low-Power'', ''cover'', ''battery'']),
     (''Compliance'', [''Compliance'', ''Core'', ''Plus'', ''Full''])]"

definition keyword_present :: "string list \<Rightarrow> string \<Rightarrow> bool" where
  \<comment> \<open>\<open>norm_kw in norm_text\<close>, with \<open>joined = "\n".join(doc_texts)\<close>\<close>
  "keyword_present doc_texts kw =
     is_substring (normalize_for_match kw) (normalize_for_match (join_lines doc_texts))"

definition keyword_coverage :: "string list \<Rightarrow> (string \<times> (string \<times> bool) list) list" where
  \<comment> \<open>the categories, and the keywords of each, are distinct in the table, so each
      assignment adds a key\<close>
  "keyword_coverage doc_texts =
     map (\<lambda>ck. (fst ck, map (\<lambda>kw. (kw, keyword_present doc_texts kw)) (snd ck)))
       FEATURE_KEYWORDS"

definition coverage_score :: "(string \<times> (string \<times> bool) list) list \<Rightarrow> rat" where
  "coverage_score cov =
     (let vs = concat (map (\<lambda>cd. map snd (snd cd)) cov);
          total = length vs; present = length (filter id vs)
      in if total \<noteq> 0 then of_nat present / of_nat total * 100 else 0)"


section \<open>spec\_diff.py: the files, the rendering and \<open>main\<close>\<close>

text \<open>
  The files \<open>main\<close> touches, as a record that \<open>main\<close> takes and returns. A text file is
  absent, unreadable (its read raises an \<open>OSError\<close> or a decoding error) or has a
  content; a JSON file is absent, unreadable, no JSON, or the value it parses to. The two
  writes are taken to succeed. Lines of the formatted report and printed messages are
  kept as data, not rendered to text: the digits of a formatted double are not modelled,
  and the sentence that opens the list of uncovered keywords and the two notes that end
  the report are constructors of their own.
\<close>

datatype text_file = Absent | Unreadable | Text string

datatype json_file = NoFile | NoAccess | NotJson | Parsed json

datatype md_line =
    Line string
  | Generated string
  | HashRow string string bool
  | NewSections "string list"
  | RemovedSections "string list"
  | OverallCoverage rat
  | KeywordRow string string bool
  | UncoveredRow string "string list"
  | SectionCoverage json
  | MappedSections json json
  | Bullet json
  | UncoveredIntro
  | NoteChanged
  | NoteHeuristic

datatype message =
    SpecNotFound
  | ReportWritten
  | MarkdownWritten
  | BelowThreshold rat rat

record world =
  spec_file :: text_file
  delta_doc_en :: text_file
  delta_doc_ja :: text_file
  json_report :: json_file
  mapping_json :: json_file
  md_report :: "md_line list option"
  stdout :: "message list"
  stderr :: "message list"

definition read_text :: "text_file \<Rightarrow> py_error + string" where
  \<comment> \<open>only \<open>FileNotFoundError\<close> is caught\<close>
  "read_text f = (case f of Absent \<Rightarrow> Inr [] | Unreadable \<Rightarrow> Inl OSError | Text s \<Rightarrow> Inr s)"

definition load_previous_report :: "json_file \<Rightarrow> json" where
  \<comment> \<open>\<open>{}\<close> when the file is absent, and when reading or parsing it raises\<close>
  "load_previous_report f = (case f of Parsed j \<Rightarrow> j | _ \<Rightarrow> JObj [])"

definition load_mapping_data :: "json_file \<Rightarrow> json" where
  \<comment> \<open>\<open>mapping_data\<close>: \<open>None\<close> when the file is absent, and when reading or parsing raises\<close>
  "load_mapping_data f = (case f of Parsed j \<Rightarrow> j | _ \<Rightarrow> JNull)"

definition digits_value :: "string \<Rightarrow> nat" where
  "digits_value ds = foldl (\<lambda>n c. 10 * n + (of_char c - 48)) 0 ds"

definition signed_literal :: "string \<Rightarrow> int \<times> string" where
  "signed_literal s = (let t = strip s in
     if prefix ''-'' t then (- 1, drop 1 t)
     else if prefix ''+'' t then (1, drop 1 t) else (1, t))"

definition float_of_str :: "string \<Rightarrow> rat option" where
  \<comment> \<open>\<open>float(s)\<close> on plain decimal literals; exponents, \<open>inf\<close>, \<open>nan\<close> and underscores
      are not modelled and read as no literal\<close>
  "float_of_str s =
     (let u = snd (signed_literal s); ip = takeWhile is_digit u; r = dropWhile is_digit u;
          fp = (if prefix ''.'' r then drop 1 r else [])
      in if (r = [] \<or> prefix ''.'' r) \<and> list_all is_digit fp \<and> (ip \<noteq> [] \<or> fp \<noteq> [])
         then Some (of_int (fst (signed_literal s))
                * (of_nat (digits_value ip) + of_nat (digits_value fp) / 10 ^ length fp))
         else None)"

definition int_of_str :: "string \<Rightarrow> int option" where
  \<comment> \<open>\<open>int(s)\<close> on plain decimal literals; underscores are not modelled\<close>
  "int_of_str s =
     (let u = snd (signed_literal s)
      in if u \<noteq> [] \<and> list_all is_digit u
         then Some (fst (signed_literal s) * int (digits_value u)) else None)"

definition py_float :: "json \<Rightarrow> py_error + json" where
  \<comment> \<open>\<open>float(v)\<close>; an integer beyond the doubles overflows\<close>
  "py_float v = (case v of
       JNull \<Rightarrow> Inl TypeError
     | JBool b \<Rightarrow> Inr (JFloat (if b then 1 else 0))
     | JInt n \<Rightarrow> (if \<bar>n\<bar> < 2 ^ 1024 - 2 ^ 970 then Inr (JFloat (of_int n)) else Inl OverflowError)
     | JFloat r \<Rightarrow> Inr (JFloat r)
     | JStr s \<Rightarrow> (case float_of_str s of Some r \<Rightarrow> Inr (JFloat r) | None \<Rightarrow> Inl ValueError)
     | JArr xs \<Rightarrow> Inl TypeError
     | JObj kvs \<Rightarrow> Inl TypeError)"

definition py_int :: "json \<Rightarrow> py_error + json" where
  \<comment> \<open>\<open>int(v)\<close>; a double is cut towards zero\<close>
  "py_int v = (case v of
       JNull \<Rightarrow> Inl TypeError
     | JBool b \<Rightarrow> Inr (JInt (if b then 1 else 0))
     | JInt n \<Rightarrow> Inr (JInt n)
     | JFloat r \<Rightarrow> Inr (JInt (if 0 \<le> r then \<lfloor>r\<rfloor> else \<lceil>r\<rceil>))
     | JStr s \<Rightarrow> (case int_of_str s of Some n \<Rightarrow> Inr (JInt n) | None \<Rightarrow> Inl ValueError)
     | JArr xs \<Rightarrow> Inl TypeError
     | JObj kvs \<Rightarrow> Inl TypeError)"

definition py_iter :: "json \<Rightarrow> py_error + json list" where
  \<comment> \<open>what \<open>for s in v\<close> goes through: items, characters or keys\<close>
  "py_iter v = (case v of
       JArr xs \<Rightarrow> Inr xs
     | JStr s \<Rightarrow> Inr (map (\<lambda>c. JStr [c]) s)
     | JObj kvs \<Rightarrow> Inr (map (\<lambda>kv. JStr (fst kv)) kvs)
     | _ \<Rightarrow> Inl TypeError)"

definition mapping_field ::
  "(json \<Rightarrow> py_error + json) \<Rightarrow> json \<Rightarrow> string \<Rightarrow> json \<Rightarrow> py_error + json" where
  \<comment> \<open>\<open>conv(mapping_data.get(key, dflt)) if mapping_data else None\<close>\<close>
  "mapping_field conv mapping_data key dflt =
     (if truthy mapping_data
      then (case py_get mapping_data key dflt of Inl e \<Rightarrow> Inl e | Inr v \<Rightarrow> conv v)
      else Inr JNull)"

definition section_mapping :: "json \<Rightarrow> py_error + json" where
  \<comment> \<open>the entry \<open>"section_mapping"\<close> of the report, its four values in the order they
      are evaluated\<close>
  "section_mapping mapping_data =
     (case mapping_field py_float mapping_data ''section_coverage_percent'' (JFloat 0) of
        Inl e \<Rightarrow> Inl e
      | Inr p \<Rightarrow>
     (case mapping_field py_int mapping_data ''mapped_section_count'' (JInt 0) of
        Inl e \<Rightarrow> Inl e
      | Inr c \<Rightarrow>
     (case mapping_field py_int mapping_data ''total_section_count'' (JInt 0) of
        Inl e \<Rightarrow> Inl e
      | Inr t \<Rightarrow>
     (case mapping_field Inr mapping_data ''unmapped_sections'' (JArr []) of
        Inl e \<Rightarrow> Inl e
      | Inr u \<Rightarrow>
          Inr (JObj [(''section_coverage_percent'', p), (''mapped_section_count'', c),
                     (''total_section_count'', t), (''unmapped_sections'', u)])))))"

definition lookup_or :: "(string \<times> json) list \<Rightarrow> string \<Rightarrow> json \<Rightarrow> json" where
  "lookup_or kvs key dflt = (case map_of kvs key of Some v \<Rightarrow> v | None \<Rightarrow> dflt)"

definition mapping_block :: "(string \<times> json) list \<Rightarrow> py_error + md_line list" where
  \<comment> \<open>the lines under \<open>if mapping_summary is not None\<close>\<close>
  "mapping_block ms =
     (let u = lookup_or ms ''unmapped_sections'' (JArr []);
          unmapped_list = (if truthy u then u else JArr [])
      in case py_iter unmapped_list of
           Inl e \<Rightarrow> Inl e
         | Inr items \<Rightarrow>
             Inr ([Line [], Line ''## Section Mapping Coverage (@spec)'', Line [],
                   SectionCoverage (lookup_or ms ''section_coverage_percent'' (JFloat 0)),
                   MappedSections (lookup_or ms ''mapped_section_count'' (JInt 0))
                     (lookup_or ms ''total_section_count'' (JInt 0))]
                  @ (if items \<noteq> [] then [Line [], Line ''Unmapped Sections:''] @ map Bullet items
                     else [])
                  @ [Line []]))"

definition generate_markdown ::
  "string \<Rightarrow> section_info list \<Rightarrow> (string \<times> (string \<times> bool) list) list \<Rightarrow> rat
     \<Rightarrow> string list \<Rightarrow> string list \<Rightarrow> (string \<times> json) list option
     \<Rightarrow> py_error + md_line list" where
  \<comment> \<open>the first argument is the time stamp, read from the clock in the source\<close>
  "generate_markdown now secs cov cov_score new_sections removed_sections mapping_summary =
     (let uncovered = concat (map (\<lambda>cd.
            (let missing = map fst (filter (\<lambda>kp. \<not> snd kp) (snd cd))
             in if missing \<noteq> [] then [UncoveredRow (fst cd) missing] else [])) cov);
          body =
            [Line ''# Spec / Docs Drift Report'', Line [], Generated now, Line [],
             Line ''## Section Hashes'', Line [],
             Line ''| Section | SHA256 | Changed |'', Line ''|---------|--------|---------|'']
            @ map (\<lambda>s. HashRow (title s) (take 12 (hash s)) (changed s)) secs
            @ [Line []]
            @ (if new_sections \<noteq> [] \<or> removed_sections \<noteq> []
               then [Line ''## Structure Changes'']
                    @ (if new_sections \<noteq> [] then [NewSections new_sections] else [])
                    @ (if removed_sections \<noteq> [] then [RemovedSections removed_sections] else [])
                    @ [Line []]
               else [])
            @ [Line ''## Feature Keyword Coverage'', Line [], OverallCoverage cov_score, Line [],
               Line ''| Category | Keyword | Present |'', Line ''|----------|---------|---------|'']
            @ concat (map (\<lambda>cd. map (\<lambda>kp. KeywordRow (fst cd) (fst kp) (snd kp)) (snd cd)) cov)
            @ [Line []]
            @ (if uncovered \<noteq> []
               then [Line ''### Uncovered Keywords'', Line [], UncoveredIntro]
                    @ uncovered @ [Line []]
               else [])
            @ [Line ''## Notes'',
               NoteChanged, NoteHeuristic]
      in case mapping_summary of
           None \<Rightarrow> Inr body
         | Some ms \<Rightarrow> (case mapping_block ms of Inl e \<Rightarrow> Inl e | Inr ls \<Rightarrow> Inr (body @ ls)))"

definition asdict :: "section_info \<Rightarrow> json" where
  "asdict s = JObj [(''title'', JStr (title s)), (''hash'', JStr (hash s)),
                    (''changed'', JBool (changed s))]"

definition sections_dict :: "section_info list \<Rightarrow> (string \<times> json) list" where
  \<comment> \<open>\<open>{s.title: asdict(s) for s in sections}\<close>: a later section with the same title
      replaces the earlier one\<close>
  "sections_dict secs = foldl (\<lambda>d s. AList.update (title s) (asdict s) d) [] secs"

definition prev_titles_of :: "json \<Rightarrow> py_error + string list" where
  \<comment> \<open>\<open>set(prev.keys()) if prev else set()\<close>\<close>
  "prev_titles_of prev = (if truthy prev then py_keys prev else Inr [])"

definition sorted_difference :: "string list \<Rightarrow> string list \<Rightarrow> string list" where
  \<comment> \<open>\<open>sorted(list(set(xs) - set(ys)))\<close>\<close>
  "sorted_difference xs ys = sort (remdups (filter (\<lambda>x. x \<notin> set ys) xs))"

definition report_json ::
  "string \<Rightarrow> rat \<Rightarrow> section_info list \<Rightarrow> string list \<Rightarrow> string list
     \<Rightarrow> (string \<times> (string \<times> bool) list) list \<Rightarrow> json \<Rightarrow> json" where
  "report_json now threshold secs new_sections removed_sections cov sm =
     JObj [(''timestamp'', JStr now),
           (''spec_file'', JStr ''spec/Nyx_Protocol_v1.0_Spec_EN.md''),
           (''sections'', JObj (sections_dict secs)),
           (''new_sections'', JArr (map JStr new_sections)),
           (''removed_sections'', JArr (map JStr removed_sections)),
           (''keyword_coverage_percent'', JFloat (coverage_score cov)),
           (''keyword_coverage'',
              JObj (map (\<lambda>cd. (fst cd, JObj (map (\<lambda>kp. (fst kp, JBool (snd kp))) (snd cd)))) cov)),
           (''uncovered_keywords'',
              JObj (map (\<lambda>cd. (fst cd, JArr (map (\<lambda>kp. JStr (fst kp))
                      (filter (\<lambda>kp. \<not> snd kp) (snd cd)))))
                   (filter (\<lambda>cd. list_ex (\<lambda>kp. \<not> snd kp) (snd cd)) cov))),
           (''section_mapping'', sm),
           (''coverage_threshold_met'', JBool (threshold \<le> coverage_score cov))]"

definition mapping_summary_of :: "json \<Rightarrow> (string \<times> json) list option" where
  \<comment> \<open>the last argument of the call of \<open>generate_markdown\<close>: the entry, unless its
      percentage is \<open>None\<close>\<close>
  "mapping_summary_of sm = (case sm of
       JObj kvs \<Rightarrow> (if lookup_or kvs ''section_coverage_percent'' JNull \<noteq> JNull
                    then Some kvs else None)
     | _ \<Rightarrow> None)"

definition main :: "rat \<Rightarrow> string \<Rightarrow> world \<Rightarrow> (py_error + int) \<times> world" where
  \<comment> \<open>\<open>main(threshold)\<close>, with the clock's time stamp as an argument: the value returned
      or the exception raised, and the files and streams after it\<close>
  "main threshold now w =
     (case read_text (spec_file w) of
        Inl e \<Rightarrow> (Inl e, w)
      | Inr spec_text \<Rightarrow>
     if spec_text = [] then (Inr 1, w\<lparr>stderr := stderr w @ [SpecNotFound]\<rparr>)
     else
     (case py_get (load_previous_report (json_report w)) ''sections'' (JObj []) of
        Inl e \<Rightarrow> (Inl e, w)
      | Inr prev \<Rightarrow>
     (case build_section_infos spec_text prev of
        Inl e \<Rightarrow> (Inl e, w)
      | Inr secs \<Rightarrow>
     (case prev_titles_of prev of
        Inl e \<Rightarrow> (Inl e, w)
      | Inr prev_titles \<Rightarrow>
     (case read_text (delta_doc_en w) of
        Inl e \<Rightarrow> (Inl e, w)
      | Inr en \<Rightarrow>
     (case read_text (delta_doc_ja w) of
        Inl e \<Rightarrow> (Inl e, w)
      | Inr ja \<Rightarrow>
     (case section_mapping (load_mapping_data (mapping_json w)) of
        Inl e \<Rightarrow> (Inl e, w)
      | Inr sm \<Rightarrow>
     (let new_sections = sorted_difference (map title secs) prev_titles;
          removed_sections = sorted_difference prev_titles (map title secs);
          cov = keyword_coverage [en, ja];
          cov_score = coverage_score cov;
          w1 = w\<lparr>json_report :=
                   Parsed (report_json now threshold secs new_sections removed_sections cov sm)\<rparr>
      in case generate_markdown now secs cov cov_score new_sections removed_sections
                (mapping_summary_of sm) of
           Inl e \<Rightarrow> (Inl e, w1)
         | Inr md \<Rightarrow>
             (Inr 0,
              w1\<lparr>md_report := Some md,
                 stdout := stdout w @ [ReportWritten, MarkdownWritten],
                 stderr := stderr w @ (if cov_score < threshold
                                       then [BelowThreshold cov_score threshold] else [])\<rparr>)))))))))"

definition exit_code :: "py_error + int \<Rightarrow> int" where
  \<comment> \<open>\<open>sys.exit(main(...))\<close>; an exception that leaves \<open>main\<close> ends the process with 1\<close>
  "exit_code r = (case r of Inl e \<Rightarrow> 1 | Inr n \<Rightarrow> n)"


section \<open>Example inputs and the rules in the specification's words\<close>

definition empty_world :: world where
  \<comment> \<open>a checkout with none of the files, and nothing printed yet\<close>
  "empty_world = \<lparr>spec_file = Absent, delta_doc_en = Absent, delta_doc_ja = Absent,
     json_report = NoFile, mapping_json = NoFile, md_report = None, stdout = [], stderr = []\<rparr>"

text \<open>
  The drift rule in the words of the specification, to be compared with
  \<^const>\<open>build_section_infos\<close>: a snapshot has a title when it holds an entry for it with
  a hash (a value other than \<open>null\<close> under the key \<open>hash\<close>), and a section is changed when
  the snapshot has its title with a hash that differs from the section's digest.
\<close>

definition snapshot_hash :: "json \<Rightarrow> string \<Rightarrow> json option" where
  "snapshot_hash previous t = (case previous of
       JObj kvs \<Rightarrow> (case map_of kvs t of
            Some (JObj e) \<Rightarrow> (case map_of e ''hash'' of
                 Some h \<Rightarrow> (if h = JNull then None else Some h)
               | None \<Rightarrow> None)
          | _ \<Rightarrow> None)
     | _ \<Rightarrow> None)"

definition spec_changed :: "json \<Rightarrow> string \<Rightarrow> string \<Rightarrow> bool" where
  "spec_changed previous t digest =
     (case snapshot_hash previous t of Some h \<Rightarrow> h \<noteq> JStr digest | None \<Rightarrow> False)"

definition is_object :: "json \<Rightarrow> bool" where
  "is_object v = (case v of JObj kvs \<Rightarrow> True | _ \<Rightarrow> False)"

definition entries_are_objects :: "json \<Rightarrow> bool" where
  "entries_are_objects previous = (case previous of
       JObj kvs \<Rightarrow> list_all (\<lambda>kv. is_object (snd kv)) kvs
     | _ \<Rightarrow> \<not> truthy previous)"

text \<open>
  The keyword test in the words of the specification, to be compared with
  \<^const>\<open>keyword_present\<close>: lower case; hyphens and underscores collapsed to spaces;
  every character that is neither alphanumeric nor a space stripped; runs of white space
  collapsed; and the companion texts concatenated.
\<close>

definition spec_normalize :: "string \<Rightarrow> string" where
  "spec_normalize text =
     sub_runs is_space
       (filter (\<lambda>c. is_lower c \<or> is_digit c \<or> c = CHR '' '')
          (sub_runs (\<lambda>c. c = CHR ''-'' \<or> c = CHR ''_'') (map py_lower text)))"

definition spec_keyword_present :: "string list \<Rightarrow> string \<Rightarrow> bool" where
  "spec_keyword_present doc_texts kw =
     is_substring (spec_normalize kw) (spec_normalize (concat doc_texts))"



section \<open>Properties of the annotation scanner\<close>

lemma annot_fn_exclusive: "annot_re_match l = Some g \<Longrightarrow> fn_name_re_match l = None"
  by (auto simp: annot_re_match_def fn_name_re_match_def Let_def prefix_def split: if_splits)

lemma fn_name_nonempty: "fn_name_re_match l = Some name \<Longrightarrow> name \<noteq> []"
  by (auto simp: fn_name_re_match_def Let_def split: if_splits)

lemma bind_annot_self: "\<exists>b. map_of (bind_annot ident m sec) sec = Some b \<and> ident \<in> set b"
  by (auto simp: bind_annot_def update_conv' split: option.splits)

lemma bind_annot_keeps:
  "map_of m s = Some b \<Longrightarrow> i \<in> set b \<Longrightarrow> \<exists>b'. map_of (bind_annot ident m sec) s = Some b' \<and> i \<in> set b'"
  by (auto simp: bind_annot_def update_conv' split: option.splits)

lemma bind_annot_other: "s \<noteq> sec \<Longrightarrow> map_of (bind_annot ident m sec) s = map_of m s"
  by (auto simp: bind_annot_def update_conv' split: option.splits)

lemma foldl_bind_keeps:
  "map_of m s = Some b \<Longrightarrow> i \<in> set b \<Longrightarrow> \<exists>b'. map_of (foldl (bind_annot ident) m as) s = Some b' \<and> i \<in> set b'"
proof (induction as arbitrary: m b)
  case Nil
  then show ?case by simp
next
  case (Cons a as)
  from bind_annot_keeps [OF Cons.prems] obtain b' where
    "map_of (bind_annot ident m a) s = Some b'" "i \<in> set b'" by blast
  then show ?case using Cons.IH by simp
qed

lemma foldl_bind_binds:
  "sec \<in> set as \<Longrightarrow> \<exists>b. map_of (foldl (bind_annot ident) m as) sec = Some b \<and> ident \<in> set b"
proof (induction as arbitrary: m)
  case Nil
  then show ?case by simp
next
  case (Cons a as)
  show ?case
  proof (cases "sec = a")
    case True
    obtain b where "map_of (bind_annot ident m a) a = Some b" "ident \<in> set b"
      using bind_annot_self by blast
    then show ?thesis using True foldl_bind_keeps by simp
  next
    case False
    then show ?thesis using Cons by simp
  qed
qed

lemma foldl_bind_other:
  "s \<notin> set as \<Longrightarrow> map_of (foldl (bind_annot ident) m as) s = map_of m s"
  by (induction as arbitrary: m) (auto simp: bind_annot_other)

lemma scan_lines_no_fn:
  "\<forall>l\<in>set ls. fn_name_re_match l = None \<Longrightarrow> snd (scan_lines p st ls) = snd st"
  unfolding scan_lines_def
  by (induction ls arbitrary: st) (auto simp: scan_line_def Let_def split: option.splits)

lemma scan_lines_other:
  "\<forall>l\<in>set ls. annot_re_match l = None \<and> fn_name_re_match l = None \<Longrightarrow> scan_lines p st ls = st"
  unfolding scan_lines_def
  by (induction ls arbitrary: st) (auto simp: scan_line_def Let_def split: option.splits)

lemma scan_lines_append: "scan_lines p st (xs @ ys) = scan_lines p (scan_lines p st xs) ys"
  by (simp add: scan_lines_def)

lemma decimal_prefixes: "map (\<lambda>n. decimal n @ ''.'') [1..<11] = numbered_prefixes"
  by code_simp

lemma is_numbered_one_to_ten: "is_numbered s = one_to_ten_period s"
proof -
  have "is_numbered s = list_ex (\<lambda>p. prefix p s) (map (\<lambda>n. decimal n @ ''.'') [1..<11])"
    by (simp only: is_numbered_def decimal_prefixes)
  then show ?thesis
    by (simp add: one_to_ten_period_def list_ex_iff)
qed

text \<open>
  Claim C5, as amended. A title takes part in section-mapping coverage (it is counted in
  the total, and listed as unmapped when it is no key of the mapping) iff it begins with
  the decimal numeral of an integer from 1 to 10, written without leading zeros, followed
  at once by a period.
\<close>

theorem numbered_iff_one_to_ten:
  "(is_numbered s \<longleftrightarrow> one_to_ten_period s)
   \<and> total_numbered secs = length (filter one_to_ten_period secs)
   \<and> unmapped secs m = filter (\<lambda>t. one_to_ten_period t \<and> map_of m t = None) secs"
proof -
  have e: "is_numbered = one_to_ten_period"
    by (rule ext) (rule is_numbered_one_to_ten)
  show ?thesis
    by (simp add: e total_numbered_def unmapped_def)
qed

text \<open>
  Claim C5 as stated fails: a title beginning with \<open>11.\<close> begins with an integer and a
  period, and is not numbered for the script.
\<close>

theorem eleven_not_numbered:
  "\<not> (is_numbered ''11. Extensions'' \<longleftrightarrow> begins_with_integer_period ''11. Extensions'')"
  by code_simp

lemma zero_not_numbered:
  "\<not> is_numbered ''0. Preface'' \<and> begins_with_integer_period ''0. Preface''"
  by code_simp

text \<open>
  Claim C1. The coverage percent is to be the number of numbered sections that are keys
  of the mapping, over the number of numbered sections, times 100. The script divides the
  number of all keys of the mapping instead: with one numbered section and one annotation
  naming a title that is no section, it reports 100 percent and one mapped section, while
  its own list of unmapped sections holds the only numbered section, and the claimed
  percentage is 0.
\<close>

theorem coverage_counts_unlisted_keys:
  "section_coverage_percent (spec_test_map [''## 1. Overview'']
      [(''tests/t.rs'', [''/// @spec Unlisted topic'', ''fn t() {}''])]) = 100
   \<and> mapped_section_count (spec_test_map [''## 1. Overview'']
      [(''tests/t.rs'', [''/// @spec Unlisted topic'', ''fn t() {}''])]) = 1
   \<and> unmapped_sections (spec_test_map [''## 1. Overview'']
      [(''tests/t.rs'', [''/// @spec Unlisted topic'', ''fn t() {}''])]) = [''1. Overview'']
   \<and> claimed_section_coverage (spec_sections [''## 1. Overview''])
       (scan_files [(''tests/t.rs'', [''/// @spec Unlisted topic'', ''fn t() {}''])]) = 0"
  by code_simp

lemma scan_line_flushes:
  assumes "fn_name_re_match line = Some name"
  shows "scan_line path (pending, m) line
    = ([], foldl (bind_annot (path @ ''::'' @ name)) m pending)"
proof -
  have na: "annot_re_match line = None"
    using assms annot_fn_exclusive by (cases "annot_re_match line") auto
  have ne: "name \<noteq> []" using assms by (rule fn_name_nonempty)
  have fl: "flush path name pending m = foldl (bind_annot (path @ ''::'' @ name)) m pending"
    using ne by (cases pending) (simp_all add: flush_def)
  show ?thesis using assms na fl by (simp add: scan_line_def)
qed

lemma scan_line_keeps:
  assumes "map_of (snd st) s = Some b" and "i \<in> set b"
  shows "\<exists>b'. map_of (snd (scan_line p st l)) s = Some b' \<and> i \<in> set b'"
proof (cases "fn_name_re_match l")
  case None
  then show ?thesis using assms by (simp add: scan_line_def Let_def)
next
  case (Some name)
  show ?thesis
    using assms Some foldl_bind_keeps [OF assms]
    by (simp add: scan_line_def Let_def flush_def)
qed

lemma scan_lines_keeps:
  "map_of (snd st) s = Some b \<Longrightarrow> i \<in> set b
   \<Longrightarrow> \<exists>b'. map_of (snd (scan_lines p st ls)) s = Some b' \<and> i \<in> set b'"
proof (induction ls arbitrary: st b)
  case Nil
  then show ?case by (simp add: scan_lines_def)
next
  case (Cons l ls)
  from scan_line_keeps [OF Cons.prems] obtain b' where
    "map_of (snd (scan_line p st l)) s = Some b'" "i \<in> set b'" by blast
  from Cons.IH [OF this] show ?case by (simp add: scan_lines_def)
qed

lemma pending_grows:
  "\<forall>l\<in>set ls. fn_name_re_match l = None \<Longrightarrow> v \<in> set (fst st)
   \<Longrightarrow> v \<in> set (fst (scan_lines p st ls))"
  unfolding scan_lines_def
  by (induction ls arbitrary: st) (auto simp: scan_line_def Let_def split: option.splits)

lemma annotation_pending:
  "\<forall>l\<in>set ls. fn_name_re_match l = None \<Longrightarrow> a \<in> set ls \<Longrightarrow> annot_re_match a = Some g
   \<Longrightarrow> strip g \<in> set (fst (scan_lines p st ls))"
proof (induction ls arbitrary: st)
  case Nil
  then show ?case by simp
next
  case (Cons x xs)
  have nx: "fn_name_re_match x = None" and nxs: "\<forall>l\<in>set xs. fn_name_re_match l = None"
    using Cons.prems(1) by simp_all
  have step: "scan_lines p st (x # xs) = scan_lines p (scan_line p st x) xs"
    by (simp add: scan_lines_def)
  show ?case
  proof (cases "a = x")
    case True
    then have "strip g \<in> set (fst (scan_line p st x))"
      using Cons.prems(3) nx by (simp add: scan_line_def)
    then show ?thesis using pending_grows [OF nxs] step by simp
  next
    case False
    then have "a \<in> set xs" using Cons.prems(2) by simp
    from Cons.IH [OF nxs this Cons.prems(3)] show ?thesis using step by simp
  qed
qed

text \<open>
  Claim C8. Take a file with the lines \<open>pre @ mid @ line # post\<close>, where \<open>line\<close> matches
  the function-definition signature with the name \<open>name\<close> and no line of \<open>mid\<close> does.
  Every value pending when \<open>line\<close> is reached is bound, in the mapping the scan of the
  file returns, to the identifier made of the file's relative path, \<open>::\<close> and \<open>name\<close>;
  the values of the annotation lines of \<open>mid\<close> are among the pending ones; after \<open>line\<close>
  the pending list is empty; and a file that ends with \<open>mid\<close>, with no function-definition
  line after it, gets the mapping of \<open>pre\<close> alone, so that its last annotations bind
  nothing.
\<close>

theorem annotations_bound_at_function:
  assumes "fn_name_re_match line = Some name"
    and "\<forall>l\<in>set mid. fn_name_re_match l = None"
  shows "(\<forall>sec\<in>set (fst (scan_lines path ([], m) (pre @ mid))).
            \<exists>b. map_of (scan_file m (path, pre @ mid @ line # post)) sec = Some b
              \<and> (path @ ''::'' @ name) \<in> set b)
    \<and> (\<forall>a\<in>set mid. \<forall>g. annot_re_match a = Some g \<longrightarrow>
            strip g \<in> set (fst (scan_lines path ([], m) (pre @ mid))))
    \<and> fst (scan_lines path ([], m) (pre @ mid @ [line])) = []
    \<and> scan_file m (path, pre @ mid) = scan_file m (path, pre)"
proof -
  obtain p0 m0 where st: "scan_lines path ([], m) (pre @ mid) = (p0, m0)"
    by (cases "scan_lines path ([], m) (pre @ mid)") auto
  have fl: "scan_line path (p0, m0) line
      = ([], foldl (bind_annot (path @ ''::'' @ name)) m0 p0)"
    using assms(1) by (rule scan_line_flushes)
  have whole: "scan_file m (path, pre @ mid @ line # post)
      = snd (scan_lines path ([], foldl (bind_annot (path @ ''::'' @ name)) m0 p0) post)"
    using st fl by (simp add: scan_file_def scan_lines_def)
  have 1: "\<forall>sec\<in>set (fst (scan_lines path ([], m) (pre @ mid))).
            \<exists>b. map_of (scan_file m (path, pre @ mid @ line # post)) sec = Some b
              \<and> (path @ ''::'' @ name) \<in> set b"
  proof
    fix sec assume "sec \<in> set (fst (scan_lines path ([], m) (pre @ mid)))"
    then have "sec \<in> set p0" using st by simp
    from foldl_bind_binds [OF this] obtain b where
      b: "map_of (foldl (bind_annot (path @ ''::'' @ name)) m0 p0) sec = Some b"
         "(path @ ''::'' @ name) \<in> set b" by blast
    have "\<exists>b'. map_of (snd (scan_lines path
        ([], foldl (bind_annot (path @ ''::'' @ name)) m0 p0) post)) sec = Some b'
        \<and> (path @ ''::'' @ name) \<in> set b'"
      by (rule scan_lines_keeps [where b = b]) (use b in simp_all)
    then show "\<exists>b. map_of (scan_file m (path, pre @ mid @ line # post)) sec = Some b
              \<and> (path @ ''::'' @ name) \<in> set b"
      using whole by simp
  qed
  have 2: "\<forall>a\<in>set mid. \<forall>g. annot_re_match a = Some g \<longrightarrow>
            strip g \<in> set (fst (scan_lines path ([], m) (pre @ mid)))"
    using annotation_pending [OF assms(2)] by (simp add: scan_lines_append)
  have 3: "fst (scan_lines path ([], m) (pre @ mid @ [line])) = []"
    using st fl by (simp add: scan_lines_def)
  have 4: "scan_file m (path, pre @ mid) = scan_file m (path, pre)"
    using assms(2) by (simp add: scan_file_def scan_lines_append scan_lines_no_fn)
  from 1 2 3 4 show ?thesis by (intro conjI)
qed

theorem annotations_bound_at_function_witness:
  "fn_name_re_match ''fn check_overview() {'' = Some ''check_overview''
   \<and> annot_re_match ''/// @spec 1. Overview'' = Some ''1. Overview''
   \<and> (\<exists>b. map_of (scan_file [] (''tests/a.rs'',
           [''fn f() {}''] @ [''/// @spec 1. Overview'', ''#[test]'']
             @ ''fn check_overview() {'' # [''/// @spec 2. Security'']))
          (strip ''1. Overview'') = Some b
         \<and> (''tests/a.rs'' @ ''::'' @ ''check_overview'') \<in> set b)
   \<and> fst (scan_lines ''tests/a.rs'' ([], [])
        ([''fn f() {}''] @ [''/// @spec 1. Overview'', ''#[test]'']
           @ [''fn check_overview() {''])) = []
   \<and> scan_file [] (''tests/a.rs'', [''fn f() {}''] @ [''/// @spec 1. Overview'', ''#[test]''])
       = scan_file [] (''tests/a.rs'', [''fn f() {}''])"
proof -
  have h1: "fn_name_re_match ''fn check_overview() {'' = Some ''check_overview''"
    by code_simp
  have h2: "\<forall>l\<in>set [''/// @spec 1. Overview'', ''#[test]'']. fn_name_re_match l = None"
    by code_simp
  have ha: "annot_re_match ''/// @spec 1. Overview'' = Some ''1. Overview''"
    by code_simp
  note t = annotations_bound_at_function [where path = "''tests/a.rs''" and m = "[]"
      and pre = "[''fn f() {}'']" and post = "[''/// @spec 2. Security'']", OF h1 h2]
  have mm: "''/// @spec 1. Overview'' \<in> set [''/// @spec 1. Overview'', ''#[test]'']"
    by (simp only: list.set insertI1)
  note pend = t [THEN conjunct2, THEN conjunct1, THEN bspec, OF mm, THEN spec, THEN mp, OF ha]
  note bound = t [THEN conjunct1, THEN bspec, OF pend]
  from h1 ha bound t [THEN conjunct2, THEN conjunct2, THEN conjunct1]
    t [THEN conjunct2, THEN conjunct2, THEN conjunct2]
  show ?thesis by (intro conjI)
qed


text \<open>
  Claim C9. A pending annotation survives any number of lines that are neither annotation
  lines nor function-definition lines: it is still pending after them, and the next
  function-definition line binds it, exactly as if the lines in between were not there.
\<close>

theorem pending_survives_other_lines:
  assumes "annot_re_match a = Some g"
    and "\<forall>l\<in>set others. annot_re_match l = None \<and> fn_name_re_match l = None"
    and "fn_name_re_match f = Some name"
  shows "scan_lines path (pending, m) (a # others @ [f]) = scan_lines path (pending, m) [a, f]
    \<and> scan_lines path (pending, m) (a # others) = (pending @ [strip g], m)
    \<and> (\<exists>b. map_of (snd (scan_lines path (pending, m) (a # others @ [f]))) (strip g) = Some b
          \<and> (path @ ''::'' @ name) \<in> set b)"
proof -
  have fa: "fn_name_re_match a = None" using assms(1) by (rule annot_fn_exclusive)
  have sa: "scan_line path (pending, m) a = (pending @ [strip g], m)"
    using assms(1) fa by (simp add: scan_line_def)
  have so: "scan_lines path (pending @ [strip g], m) others = (pending @ [strip g], m)"
    using assms(2) by (rule scan_lines_other)
  have 2: "scan_lines path (pending, m) (a # others) = (pending @ [strip g], m)"
    using sa so by (simp add: scan_lines_def)
  have 1: "scan_lines path (pending, m) (a # others @ [f]) = scan_lines path (pending, m) [a, f]"
    using sa so by (simp add: scan_lines_def)
  have "\<exists>b. map_of (snd (scan_line path (pending @ [strip g], m) f)) (strip g) = Some b
          \<and> (path @ ''::'' @ name) \<in> set b"
    using scan_line_flushes [OF assms(3), of path "pending @ [strip g]" m]
      foldl_bind_binds [of "strip g" "pending @ [strip g]" "path @ ''::'' @ name" m]
    by simp
  then have 3: "\<exists>b. map_of (snd (scan_lines path (pending, m) (a # others @ [f]))) (strip g) = Some b
          \<and> (path @ ''::'' @ name) \<in> set b"
    using sa so by (simp add: scan_lines_def)
  from 1 2 3 show ?thesis by blast
qed


theorem pending_survives_other_lines_witness:
  "annot_re_match ''/// @spec 1. Overview'' = Some ''1. Overview''
   \<and> fn_name_re_match ''fn check_overview() {'' = Some ''check_overview''
   \<and> scan_lines ''tests/a.rs'' ([], [])
        (''/// @spec 1. Overview'' # ['''', ''#[test]'', ''// a comment''] @ [''fn check_overview() {''])
       = scan_lines ''tests/a.rs'' ([], []) [''/// @spec 1. Overview'', ''fn check_overview() {'']
   \<and> (\<exists>b. map_of (snd (scan_lines ''tests/a.rs'' ([], [])
           (''/// @spec 1. Overview'' # ['''', ''#[test]'', ''// a comment''] @ [''fn check_overview() {''])))
          (strip ''1. Overview'') = Some b
         \<and> (''tests/a.rs'' @ ''::'' @ ''check_overview'') \<in> set b)"
proof -
  have h1: "annot_re_match ''/// @spec 1. Overview'' = Some ''1. Overview''"
    by code_simp
  have h2: "\<forall>l\<in>set ['''', ''#[test]'', ''// a comment''].
      annot_re_match l = None \<and> fn_name_re_match l = None"
    by code_simp
  have h3: "fn_name_re_match ''fn check_overview() {'' = Some ''check_overview''"
    by code_simp
  note t = pending_survives_other_lines [OF h1 h2 h3, of "''tests/a.rs''" "[]" "[]"]
  from h1 h3 t [THEN conjunct1] t [THEN conjunct2, THEN conjunct2]
  show ?thesis by (intro conjI)
qed

section \<open>spec\_diff.py: digests and the section list\<close>

text \<open>
  The digests of the texts \<open>x\<close> and \<open>y\<close>, computed in stages: the padded block, its
  message schedule, the 64 rounds, the final addition and the hexadecimal rendering.
\<close>

lemma sha_blocks_x: "sha_blocks ''x'' = [[2021654528, 0, 0, 0, 0, 0, 0, 0, 0, 0, 0, 0, 0, 0, 0, 8]]"
  by code_simp

lemma schedule_x: "schedule [2021654528, 0, 0, 0, 0, 0, 0, 0, 0, 0, 0, 0, 0, 0, 0, 8] = [2021654528, 0, 0, 0, 0, 0, 0, 0, 0, 0, 0, 0, 0, 0, 0, 8, 2021654528, 327680, 1971024, 536871234, 3418490760, 8475648, 1124568096, 4177534981, 931784704, 341448440, 3910008977, 359146923, 3236027942, 1500331568, 3723075617, 2150859516, 2969464858, 3203193819, 2344153889, 1621682451, 3793127511, 4094548217, 1965560327, 2113633090, 2029180404, 834715653, 3623783194, 2443265322, 1843327394, 2293781290, 211574689, 3698406187, 490561120, 3311074907, 853938067, 15903757, 3428712410, 150987924, 3880940780, 4238751076, 4017808925, 3462345068, 524655193, 3518015180, 1175202895, 200890185, 2650706160, 3779152477]"
  by code_simp

lemma rounds_x: "rounds sha_h0 [2021654528, 0, 0, 0, 0, 0, 0, 0, 0, 0, 0, 0, 0, 0, 0, 8, 2021654528, 327680, 1971024, 536871234, 3418490760, 8475648, 1124568096, 4177534981, 931784704, 341448440, 3910008977, 359146923, 3236027942, 1500331568, 3723075617, 2150859516, 2969464858, 3203193819, 2344153889, 1621682451, 3793127511, 4094548217, 1965560327, 2113633090, 2029180404, 834715653, 3623783194, 2443265322, 1843327394, 2293781290, 211574689, 3698406187, 490561120, 3311074907, 853938067, 15903757, 3428712410, 150987924, 3880940780, 4238751076, 4017808925, 3462345068, 524655193, 3518015180, 1175202895, 200890185, 2650706160, 3779152477] = [3278319579, 4223599039, 3304294711, 1448885691, 2000993586, 4114046031, 3802246508, 909736808]"
  by code_simp

lemma digest_words_x: "map2 (+) sha_h0 [3278319579, 4223599039, 3304294711, 1448885691, 2000993586, 4114046031, 3802246508, 909736808] = [762385986, 3072766020, 23231657, 4222366453, 3360886705, 2419901659, 36013847, 2451196033]"
  by code_simp

lemma hex_x: "concat (map hex32 [762385986, 3072766020, 23231657, 4222366453, 3360886705, 2419901659, 36013847, 2451196033]) = ''2d711642b726b04401627ca9fbac32f5c8530fb1903cc4db02258717921a4881''"
  by code_simp

lemma sha256_x: "sha256 ''x'' = ''2d711642b726b04401627ca9fbac32f5c8530fb1903cc4db02258717921a4881''"
  by (simp only: sha256_def sha_blocks_x foldl.simps compress_def schedule_x rounds_x digest_words_x hex_x)

lemma sha_blocks_y: "sha_blocks ''y'' = [[2038431744, 0, 0, 0, 0, 0, 0, 0, 0, 0, 0, 0, 0, 0, 0, 8]]"
  by code_simp

lemma schedule_y: "schedule [2038431744, 0, 0, 0, 0, 0, 0, 0, 0, 0, 0, 0, 0, 0, 0, 8] = [2038431744, 0, 0, 0, 0, 0, 0, 0, 0, 0, 0, 0, 0, 0, 0, 8, 2038431744, 327680, 1987568, 536871234, 3817211800, 8475648, 3272051770, 4194312197, 934279168, 341513784, 588118046, 3445892603, 1132817049, 1501123153, 571574510, 3404197935, 3275624801, 2654180559, 406788241, 3367047218, 23929551, 1537752150, 3756208892, 3482315567, 2351393677, 2071746757, 731661898, 3599240696, 1209920843, 4212192107, 4152558063, 514814291, 2306622035, 124255651, 3499426580, 3905943140, 3341987434, 2280435850, 3187780979, 4160869976, 175095633, 2661349872, 615424073, 3864921488, 1216216206, 2092643617, 2869314040, 3421798972]"
  by code_simp

lemma rounds_y: "rounds sha_h0 [2038431744, 0, 0, 0, 0, 0, 0, 0, 0, 0, 0, 0, 0, 0, 0, 8, 2038431744, 327680, 1987568, 536871234, 3817211800, 8475648, 3272051770, 4194312197, 934279168, 341513784, 588118046, 3445892603, 1132817049, 1501123153, 571574510, 3404197935, 3275624801, 2654180559, 406788241, 3367047218, 23929551, 1537752150, 3756208892, 3482315567, 2351393677, 2071746757, 731661898, 3599240696, 1209920843, 4212192107, 4152558063, 514814291, 2306622035, 124255651, 3499426580, 3905943140, 3341987434, 2280435850, 3187780979, 4160869976, 175095633, 2661349872, 615424073, 3864921488, 1216216206, 2092643617, 2869314040, 3421798972] = [938671567, 2095927555, 1351637020, 3542474950, 1901711633, 2787452011, 2075391750, 3043484641]"
  by code_simp

lemma digest_words_y: "map2 (+) sha_h0 [938671567, 2095927555, 1351637020, 3542474950, 1901711633, 2787452011, 2075391750, 3043484641] = [2717705270, 945094536, 2365541262, 2020988416, 3261604752, 1093307639, 2604126385, 289976570]"
  by code_simp

lemma hex_y: "concat (map hex32 [2717705270, 945094536, 2365541262, 2020988416, 3261604752, 1093307639, 2604126385, 289976570]) = ''a1fce4363854ff888cff4b8e7875d600c2682390412a8cf79b37d0b11148b0fa''"
  by code_simp

lemma sha256_y: "sha256 ''y'' = ''a1fce4363854ff888cff4b8e7875d600c2682390412a8cf79b37d0b11148b0fa''"
  by (simp only: sha256_def sha_blocks_y foldl.simps compress_def schedule_y rounds_y digest_words_y hex_y)

lemma extract_sections_three: "extract_sections (join_lines [''## A'', ''x'', ''## B'', ''x'', ''## C'', ''x''])
   = [(''A'', ''x''), (''B'', ''x''), (''C'', ''x'')]"
  by code_simp

lemma prev_hash_changed:
  "prev_hash_of previous t = Inr h
   \<Longrightarrow> (h \<noteq> JNull \<and> h \<noteq> JStr d) = spec_changed previous t d"
  by (auto simp: prev_hash_of_def py_get_def spec_changed_def snapshot_hash_def truthy_def
      split: json.splits option.splits if_splits)

lemma section_infos_of_value:
  "section_infos_of previous tbs = Inr infos
   \<Longrightarrow> infos = map (\<lambda>tb. \<lparr>title = fst tb, hash = sha256 (snd tb),
          changed = spec_changed previous (fst tb) (sha256 (snd tb))\<rparr>) tbs"
  by (induction tbs arbitrary: infos) (auto split: sum.splits simp: prev_hash_changed)

lemma prev_hash_total:
  assumes "entries_are_objects previous"
  shows "\<exists>h. prev_hash_of previous t = Inr h"
proof (cases "truthy previous")
  case False
  then show ?thesis by (simp add: prev_hash_of_def)
next
  case True
  then obtain kvs where p: "previous = JObj kvs" and a: "list_all (\<lambda>kv. is_object (snd kv)) kvs"
    using assms by (cases previous) (auto simp: entries_are_objects_def)
  show ?thesis
  proof (cases "map_of kvs t")
    case None
    then show ?thesis using p True by (simp add: prev_hash_of_def py_get_def)
  next
    case (Some e)
    then have "(t, e) \<in> set kvs" by (rule map_of_SomeD)
    then have "is_object e" using a by (auto simp: list_all_iff)
    then obtain fs where "e = JObj fs" by (cases e) (auto simp: is_object_def)
    then show ?thesis using p True Some
      by (simp add: prev_hash_of_def py_get_def split: option.splits)
  qed
qed

lemma section_infos_of_total:
  "entries_are_objects previous \<Longrightarrow> \<exists>infos. section_infos_of previous tbs = Inr infos"
proof (induction tbs)
  case Nil
  then show ?case by simp
next
  case (Cons tb tbs)
  from prev_hash_total [OF Cons.prems] obtain h where "prev_hash_of previous (fst tb) = Inr h"
    by blast
  moreover from Cons.IH [OF Cons.prems] obtain infos where
    "section_infos_of previous tbs = Inr infos" by blast
  ultimately show ?case by simp
qed

lemma section_infos_of_empty_baseline:
  "\<not> truthy previous \<Longrightarrow> section_infos_of previous tbs
     = Inr (map (\<lambda>tb. \<lparr>title = fst tb, hash = sha256 (snd tb), changed = False\<rparr>) tbs)"
  by (induction tbs) (simp_all add: prev_hash_of_def)











section \<open>spec\_diff.py: a run of \<open>main\<close> and the snapshot it leaves\<close>

lemma foldl_update_map_of:
  "map_of (foldl (\<lambda>d s. AList.update (title s) (asdict s) d) d0 secs)
     = map_of (rev (map (\<lambda>s. (title s, asdict s)) secs) @ d0)"
proof (induction secs arbitrary: d0)
  case Nil
  then show ?case by simp
next
  case (Cons x xs)
  show ?case
    by (simp add: Cons.IH map_of_append update_conv')
qed

lemma map_of_sections_dict:
  "map_of (sections_dict secs) = map_of (rev (map (\<lambda>s. (title s, asdict s)) secs))"
  using foldl_update_map_of [of "[]" secs] by (simp add: sections_dict_def)

lemma map_of_keyed:
  "map_of (map (\<lambda>s. (title s, g s)) l) t = map_option g (find (\<lambda>s. title s = t) l)"
  by (induction l) auto

lemma map_of_sections_dict_last:
  "map_of (sections_dict secs) t = map_option asdict (find (\<lambda>s. title s = t) (rev secs))"
  using map_of_keyed [of asdict "rev secs" t]
  by (simp add: map_of_sections_dict rev_map)

lemma snapshot_hash_sections_dict:
  "snapshot_hash (JObj (sections_dict secs)) t
     = map_option (\<lambda>s. JStr (hash s)) (find (\<lambda>s. title s = t) (rev secs))"
  by (cases "find (\<lambda>s. title s = t) (rev secs)")
     (simp_all add: snapshot_hash_def map_of_sections_dict_last asdict_def)

lemma spec_changed_sections_dict:
  "spec_changed (JObj (sections_dict secs)) t d
     = (case find (\<lambda>s. title s = t) (rev secs) of Some u \<Rightarrow> hash u \<noteq> d | None \<Rightarrow> False)"
  by (simp add: spec_changed_def snapshot_hash_sections_dict split: option.splits)

lemma update_objects:
  "list_all (\<lambda>kv. is_object (snd kv)) al \<Longrightarrow> is_object v
   \<Longrightarrow> list_all (\<lambda>kv. is_object (snd kv)) (AList.update k v al)"
  by (induction al) auto

lemma foldl_update_objects:
  "list_all (\<lambda>kv. is_object (snd kv)) d0
   \<Longrightarrow> list_all (\<lambda>kv. is_object (snd kv))
        (foldl (\<lambda>d s. AList.update (title s) (asdict s) d) d0 secs)"
proof (induction secs arbitrary: d0)
  case Nil
  then show ?case by simp
next
  case (Cons x xs)
  have "is_object (asdict x)" by (simp add: is_object_def asdict_def)
  from update_objects [OF Cons.prems this]
  have "list_all (\<lambda>kv. is_object (snd kv)) (AList.update (title x) (asdict x) d0)" .
  from Cons.IH [OF this] show ?case by simp
qed

lemma sections_dict_objects: "entries_are_objects (JObj (sections_dict secs))"
  using foldl_update_objects [of "[]" secs]
  by (simp add: entries_are_objects_def sections_dict_def)

lemma sections_dict_titles:
  "set (map fst (sections_dict secs)) = set (map title secs)"
proof -
  have "dom (map_of (sections_dict secs))
      = dom (map_of (rev (map (\<lambda>s. (title s, asdict s)) secs)))"
    by (simp add: map_of_sections_dict)
  then show ?thesis by (simp add: dom_map_of_conv_image_fst image_image)
qed

lemma prev_titles_of_sections_dict:
  "\<exists>pt. prev_titles_of (JObj (sections_dict secs)) = Inr pt \<and> set pt = set (map title secs)"
proof (cases "sections_dict secs = []")
  case True
  then have "set (map title secs) = {}" using sections_dict_titles [of secs] by simp
  then show ?thesis using True by (simp add: prev_titles_of_def truthy_def)
next
  case False
  then show ?thesis using sections_dict_titles [of secs]
    by (simp add: prev_titles_of_def truthy_def py_keys_def)
qed

lemma sorted_difference_same:
  "set xs = set ys \<Longrightarrow> sorted_difference xs ys = []"
  by (simp add: sorted_difference_def)

lemma generate_markdown_total:
  "generate_markdown n1 s1 c1 sc1 ns1 rs1 ms = Inr md1
   \<Longrightarrow> \<exists>md2. generate_markdown n2 s2 c2 sc2 ns2 rs2 ms = Inr md2"
  by (auto simp: generate_markdown_def Let_def split: option.splits sum.splits)

lemma hash_rows_in_markdown:
  "generate_markdown n secs cov sc ns rs ms = Inr md \<Longrightarrow> s \<in> set secs
   \<Longrightarrow> HashRow (title s) (take 12 (hash s)) (changed s) \<in> set md"
  by (auto simp: generate_markdown_def Let_def split: option.splits sum.splits)

lemma main_returns:
  assumes "spec_file w = Text s" and "s \<noteq> []"
    and "py_get (load_previous_report (json_report w)) ''sections'' (JObj []) = Inr prev"
    and "build_section_infos s prev = Inr secs"
    and "prev_titles_of prev = Inr pt"
    and "read_text (delta_doc_en w) = Inr en"
    and "read_text (delta_doc_ja w) = Inr ja"
    and "section_mapping (load_mapping_data (mapping_json w)) = Inr sm"
    and "generate_markdown now secs (keyword_coverage [en, ja])
           (coverage_score (keyword_coverage [en, ja]))
           (sorted_difference (map title secs) pt) (sorted_difference pt (map title secs))
           (mapping_summary_of sm) = Inr md"
  shows "main threshold now w
    = (Inr 0,
       w\<lparr>json_report := Parsed (report_json now threshold secs
              (sorted_difference (map title secs) pt) (sorted_difference pt (map title secs))
              (keyword_coverage [en, ja]) sm),
         md_report := Some md,
         stdout := stdout w @ [ReportWritten, MarkdownWritten],
         stderr := stderr w @ (if coverage_score (keyword_coverage [en, ja]) < threshold
            then [BelowThreshold (coverage_score (keyword_coverage [en, ja])) threshold]
            else [])\<rparr>)"
  using assms by (simp add: main_def read_text_def Let_def)

lemma main_success:
  assumes "main threshold now w = (Inr 0, w1)"
  shows "\<exists>s prev secs pt en ja sm md.
      spec_file w = Text s \<and> s \<noteq> []
    \<and> py_get (load_previous_report (json_report w)) ''sections'' (JObj []) = Inr prev
    \<and> build_section_infos s prev = Inr secs
    \<and> prev_titles_of prev = Inr pt
    \<and> read_text (delta_doc_en w) = Inr en
    \<and> read_text (delta_doc_ja w) = Inr ja
    \<and> section_mapping (load_mapping_data (mapping_json w)) = Inr sm
    \<and> generate_markdown now secs (keyword_coverage [en, ja])
           (coverage_score (keyword_coverage [en, ja]))
           (sorted_difference (map title secs) pt) (sorted_difference pt (map title secs))
           (mapping_summary_of sm) = Inr md
    \<and> w1 = w\<lparr>json_report := Parsed (report_json now threshold secs
              (sorted_difference (map title secs) pt) (sorted_difference pt (map title secs))
              (keyword_coverage [en, ja]) sm),
         md_report := Some md,
         stdout := stdout w @ [ReportWritten, MarkdownWritten],
         stderr := stderr w @ (if coverage_score (keyword_coverage [en, ja]) < threshold
            then [BelowThreshold (coverage_score (keyword_coverage [en, ja])) threshold]
            else [])\<rparr>"
proof (cases "spec_file w")
  case Absent
  then show ?thesis using assms by (simp add: main_def read_text_def)
next
  case Unreadable
  then show ?thesis using assms by (simp add: main_def read_text_def)
next
  case (Text s)
  show ?thesis
  proof (cases "s = []")
    case True
    then show ?thesis using assms Text by (simp add: main_def read_text_def)
  next
    case ne: False
    show ?thesis
    proof (cases "py_get (load_previous_report (json_report w)) ''sections'' (JObj [])")
      case (Inl e)
      then show ?thesis using assms Text ne by (simp add: main_def read_text_def)
    next
      case prev: (Inr prev)
      show ?thesis
      proof (cases "build_section_infos s prev")
        case (Inl e)
        then show ?thesis using assms Text ne prev by (simp add: main_def read_text_def)
      next
        case secs: (Inr secs)
        show ?thesis
        proof (cases "prev_titles_of prev")
          case (Inl e)
          then show ?thesis using assms Text ne prev secs by (simp add: main_def read_text_def)
        next
          case pt: (Inr pt)
          show ?thesis
          proof (cases "read_text (delta_doc_en w)")
            case (Inl e)
            then show ?thesis using assms Text ne prev secs pt
              by (simp add: main_def read_text_def)
          next
            case en: (Inr en)
            show ?thesis
            proof (cases "read_text (delta_doc_ja w)")
              case (Inl e)
              then show ?thesis using assms Text ne prev secs pt en
                by (simp add: main_def read_text_def)
            next
              case ja: (Inr ja)
              show ?thesis
              proof (cases "section_mapping (load_mapping_data (mapping_json w))")
                case (Inl e)
                then show ?thesis using assms Text ne prev secs pt en ja
                  by (simp add: main_def read_text_def)
              next
                case sm: (Inr sm)
                show ?thesis
                proof (cases "generate_markdown now secs (keyword_coverage [en, ja])
                    (coverage_score (keyword_coverage [en, ja]))
                    (sorted_difference (map title secs) pt)
                    (sorted_difference pt (map title secs)) (mapping_summary_of sm)")
                  case (Inl e)
                  then show ?thesis using assms Text ne prev secs pt en ja sm
                    by (simp add: main_def read_text_def Let_def)
                next
                  case md: (Inr md)
                  have "main threshold now w = (Inr 0,
                     w\<lparr>json_report := Parsed (report_json now threshold secs
                        (sorted_difference (map title secs) pt)
                        (sorted_difference pt (map title secs))
                        (keyword_coverage [en, ja]) sm),
                       md_report := Some md,
                       stdout := stdout w @ [ReportWritten, MarkdownWritten],
                       stderr := stderr w @
                         (if coverage_score (keyword_coverage [en, ja]) < threshold
                          then [BelowThreshold (coverage_score (keyword_coverage [en, ja]))
                                 threshold]
                          else [])\<rparr>)"
                    by (rule main_returns [OF Text ne prev secs pt en ja sm md])
                  then have "w1 = w\<lparr>json_report := Parsed (report_json now threshold secs
                        (sorted_difference (map title secs) pt)
                        (sorted_difference pt (map title secs))
                        (keyword_coverage [en, ja]) sm),
                       md_report := Some md,
                       stdout := stdout w @ [ReportWritten, MarkdownWritten],
                       stderr := stderr w @
                         (if coverage_score (keyword_coverage [en, ja]) < threshold
                          then [BelowThreshold (coverage_score (keyword_coverage [en, ja]))
                                 threshold]
                          else [])\<rparr>"
                    using assms by simp
                  with Text ne prev secs pt en ja sm md show ?thesis by blast
                qed
              qed
            qed
          qed
        qed
      qed
    qed
  qed
qed

lemma find_infos:
  "find (\<lambda>v. title v = t)
     (map (\<lambda>tb. \<lparr>title = fst tb, hash = sha256 (snd tb), changed = c tb\<rparr>) l)
   = map_option (\<lambda>tb. \<lparr>title = fst tb, hash = sha256 (snd tb), changed = c tb\<rparr>)
       (find (\<lambda>tb. fst tb = t) l)"
  by (induction l) auto

lemma last_digest_infos:
  "(case find (\<lambda>v. title v = t)
       (rev (map (\<lambda>tb. \<lparr>title = fst tb, hash = sha256 (snd tb), changed = c tb\<rparr>) tbs)) of
      Some v \<Rightarrow> hash v \<noteq> d | None \<Rightarrow> False)
   = (case find (\<lambda>tb. fst tb = t) (rev tbs) of
        Some tb \<Rightarrow> sha256 (snd tb) \<noteq> d | None \<Rightarrow> False)"
  using find_infos [of t c "rev tbs"]
  by (simp add: rev_map split: option.splits)

lemma find_distinct_title:
  "distinct (map title l) \<Longrightarrow> u \<in> set l \<Longrightarrow> find (\<lambda>v. title v = title u) l = Some u"
  by (induction l) (auto simp: image_iff)

lemma find_member:
  "find P l = Some x \<Longrightarrow> x \<in> set l \<and> P x"
  by (induction l) (auto split: if_splits)

lemma second_run_flags:
  assumes s1: "secs1 = map (\<lambda>tb. \<lparr>title = fst tb, hash = sha256 (snd tb),
          changed = c tb\<rparr>) tbs"
    and s2: "secs2 = map (\<lambda>tb. \<lparr>title = fst tb, hash = sha256 (snd tb),
          changed = spec_changed (JObj (sections_dict secs1)) (fst tb) (sha256 (snd tb))\<rparr>) tbs"
  shows "\<forall>u\<in>set secs2. changed u \<longleftrightarrow>
      (case find (\<lambda>v. title v = title u) (rev secs2) of
         Some v \<Rightarrow> hash v \<noteq> hash u | None \<Rightarrow> False)"
proof
  fix u assume "u \<in> set secs2"
  then obtain tb where tb: "tb \<in> set tbs"
    and u: "u = \<lparr>title = fst tb, hash = sha256 (snd tb),
          changed = spec_changed (JObj (sections_dict secs1)) (fst tb) (sha256 (snd tb))\<rparr>"
    unfolding s2 by auto
  have "changed u = spec_changed (JObj (sections_dict secs1)) (fst tb) (sha256 (snd tb))"
    using u by simp
  also have "\<dots> = (case find (\<lambda>v. title v = fst tb) (rev secs1) of
         Some v \<Rightarrow> hash v \<noteq> sha256 (snd tb) | None \<Rightarrow> False)"
    by (rule spec_changed_sections_dict)
  also have "\<dots> = (case find (\<lambda>x. fst x = fst tb) (rev tbs) of
        Some x \<Rightarrow> sha256 (snd x) \<noteq> sha256 (snd tb) | None \<Rightarrow> False)"
    unfolding s1 by (rule last_digest_infos)
  also have "\<dots> = (case find (\<lambda>v. title v = fst tb) (rev secs2) of
         Some v \<Rightarrow> hash v \<noteq> sha256 (snd tb) | None \<Rightarrow> False)"
    unfolding s2 by (rule last_digest_infos [symmetric])
  finally have r: "changed u = (case find (\<lambda>v. title v = fst tb) (rev secs2) of
         Some v \<Rightarrow> hash v \<noteq> sha256 (snd tb) | None \<Rightarrow> False)" .
  have tu: "title u = fst tb" and hu: "hash u = sha256 (snd tb)" using u by simp_all
  show "changed u \<longleftrightarrow>
      (case find (\<lambda>v. title v = title u) (rev secs2) of
         Some v \<Rightarrow> hash v \<noteq> hash u | None \<Rightarrow> False)"
    unfolding tu hu by (rule r)
qed

lemma flags_distinct:
  assumes fl: "\<forall>u\<in>set secs. changed u \<longleftrightarrow>
      (case find (\<lambda>v. title v = title u) (rev secs) of
         Some v \<Rightarrow> hash v \<noteq> hash u | None \<Rightarrow> False)"
    and d: "distinct (map title secs)"
  shows "\<forall>u\<in>set secs. \<not> changed u"
proof
  fix u assume u: "u \<in> set secs"
  have dr: "distinct (map title (rev secs))" using d by (simp add: rev_map [symmetric])
  have ur: "u \<in> set (rev secs)" using u by simp
  have "find (\<lambda>v. title v = title u) (rev secs) = Some u"
    by (rule find_distinct_title [OF dr ur])
  then show "\<not> changed u" using fl u by simp
qed

lemma flags_json:
  assumes fl: "\<forall>u\<in>set secs. changed u \<longleftrightarrow>
      (case find (\<lambda>v. title v = title u) (rev secs) of
         Some v \<Rightarrow> hash v \<noteq> hash u | None \<Rightarrow> False)"
    and e: "map_of (sections_dict secs) t = Some e"
  shows "py_get e ''changed'' JNull = Inr (JBool False)"
proof -
  from e obtain u where f: "find (\<lambda>s. title s = t) (rev secs) = Some u" and eu: "e = asdict u"
    by (auto simp: map_of_sections_dict_last)
  from find_member [OF f] have m: "u \<in> set secs" and t: "title u = t" by auto
  have "\<not> changed u" using fl m f t by simp
  then show ?thesis using eu by (simp add: asdict_def py_get_def)
qed

lemma fresh_run:
  assumes "spec_file w = Text s" and "s \<noteq> []" and "json_report w = NoFile"
    and "delta_doc_en w = Absent" and "delta_doc_ja w = Absent" and "mapping_json w = NoFile"
  shows "\<exists>ns rs sm md. main threshold now w
    = (Inr 0,
       w\<lparr>json_report := Parsed (report_json now threshold
              (map (\<lambda>tb. \<lparr>title = fst tb, hash = sha256 (snd tb), changed = False\<rparr>)
                 (extract_sections s))
              ns rs (keyword_coverage [[], []]) sm),
         md_report := Some md,
         stdout := stdout w @ [ReportWritten, MarkdownWritten],
         stderr := stderr w @ (if coverage_score (keyword_coverage [[], []]) < threshold
            then [BelowThreshold (coverage_score (keyword_coverage [[], []])) threshold]
            else [])\<rparr>)"
proof -
  let ?secs = "map (\<lambda>tb. \<lparr>title = fst tb, hash = sha256 (snd tb), changed = False\<rparr>)
                 (extract_sections s)"
  let ?sm = "JObj [(''section_coverage_percent'', JNull), (''mapped_section_count'', JNull),
                     (''total_section_count'', JNull), (''unmapped_sections'', JNull)]"
  have nt: "\<not> truthy (JObj [])" by (simp add: truthy_def)
  have pg: "py_get (load_previous_report (json_report w)) ''sections'' (JObj []) = Inr (JObj [])"
    using assms(3) by (simp add: load_previous_report_def py_get_def)
  have b: "build_section_infos s (JObj []) = Inr ?secs"
    unfolding build_section_infos_def by (rule section_infos_of_empty_baseline [OF nt])
  have pt: "prev_titles_of (JObj []) = Inr []" using nt by (simp add: prev_titles_of_def)
  have en: "read_text (delta_doc_en w) = Inr []" using assms(4) by (simp add: read_text_def)
  have ja: "read_text (delta_doc_ja w) = Inr []" using assms(5) by (simp add: read_text_def)
  have sm: "section_mapping (load_mapping_data (mapping_json w)) = Inr ?sm"
    using assms(6)
    by (simp add: section_mapping_def load_mapping_data_def mapping_field_def truthy_def)
  have ms: "mapping_summary_of ?sm = None"
    by (simp add: mapping_summary_of_def lookup_or_def)
  obtain md where g: "generate_markdown now ?secs (keyword_coverage [[], []])
           (coverage_score (keyword_coverage [[], []]))
           (sorted_difference (map title ?secs) []) (sorted_difference [] (map title ?secs))
           (mapping_summary_of ?sm) = Inr md"
    unfolding ms by (simp add: generate_markdown_def Let_def)
  from main_returns [OF assms(1,2) pg b pt en ja sm g, of threshold] show ?thesis by blast
qed

lemma extract_sections_duplicate:
  "extract_sections (join_lines [''## A'', ''x'', ''## A'', ''y'']) = [(''A'', ''x''), (''A'', ''y'')]"
  by code_simp

lemma extract_sections_two:
  "extract_sections (join_lines [''## A'', ''x'', ''## B'', ''y'']) = [(''A'', ''x''), (''B'', ''y'')]"
  by code_simp

lemma run_without_mapping:
  assumes "spec_file w = Text s" and "s \<noteq> []"
    and "py_get (load_previous_report (json_report w)) ''sections'' (JObj []) = Inr prev"
    and "build_section_infos s prev = Inr secs"
    and "prev_titles_of prev = Inr pt"
    and "delta_doc_en w = Absent" and "delta_doc_ja w = Absent" and "mapping_json w = NoFile"
  shows "\<exists>j md out err. main threshold now w
      = (Inr 0, w\<lparr>json_report := Parsed j, md_report := Some md, stdout := out, stderr := err\<rparr>)
    \<and> py_get j ''sections'' (JObj []) = Inr (JObj (sections_dict secs))
    \<and> (\<forall>u\<in>set secs. HashRow (title u) (take 12 (hash u)) (changed u) \<in> set md)"
proof -
  let ?sm = "JObj [(''section_coverage_percent'', JNull), (''mapped_section_count'', JNull),
                     (''total_section_count'', JNull), (''unmapped_sections'', JNull)]"
  let ?cov = "keyword_coverage [[], []]"
  let ?ns = "sorted_difference (map title secs) pt"
  let ?rs = "sorted_difference pt (map title secs)"
  have en: "read_text (delta_doc_en w) = Inr []" using assms(6) by (simp add: read_text_def)
  have ja: "read_text (delta_doc_ja w) = Inr []" using assms(7) by (simp add: read_text_def)
  have sm: "section_mapping (load_mapping_data (mapping_json w)) = Inr ?sm"
    using assms(8)
    by (simp add: section_mapping_def load_mapping_data_def mapping_field_def truthy_def)
  have ms: "mapping_summary_of ?sm = None"
    by (simp add: mapping_summary_of_def lookup_or_def)
  obtain md where g: "generate_markdown now secs ?cov (coverage_score ?cov) ?ns ?rs
       (mapping_summary_of ?sm) = Inr md"
    unfolding ms by (simp add: generate_markdown_def Let_def)
  note r = main_returns [OF assms(1-5) en ja sm g, of threshold]
  have j: "py_get (report_json now threshold secs ?ns ?rs ?cov ?sm) ''sections'' (JObj [])
      = Inr (JObj (sections_dict secs))"
    by (simp add: report_json_def py_get_def)
  have rows: "\<forall>u\<in>set secs. HashRow (title u) (take 12 (hash u)) (changed u) \<in> set md"
    using hash_rows_in_markdown [OF g] by blast
  from r j rows show ?thesis by blast
qed


section \<open>spec\_diff.py: runs that stop before the reports\<close>

text \<open>
  Claim C6. When the primary specification document is missing or cannot be read, the
  command ends with a non-zero exit code (it is 1) and leaves the JSON report, the
  formatted report and the standard output as they were: the only change is the message
  on the standard error stream, printed by \<open>main\<close> when the document is missing (for an
  unreadable document the exception leaves \<open>main\<close>).
\<close>

theorem missing_spec_aborts:
  assumes "spec_file w = Absent \<or> spec_file w = Unreadable"
  shows "exit_code (fst (main threshold now w)) = 1
    \<and> exit_code (fst (main threshold now w)) \<noteq> 0
    \<and> snd (main threshold now w)
        = w\<lparr>stderr := stderr w @ (if spec_file w = Absent then [SpecNotFound] else [])\<rparr>
    \<and> json_report (snd (main threshold now w)) = json_report w
    \<and> md_report (snd (main threshold now w)) = md_report w
    \<and> stdout (snd (main threshold now w)) = stdout w"
  using assms by (auto simp: main_def read_text_def exit_code_def)

theorem missing_spec_aborts_witness:
  "exit_code (fst (main 70 ''2026-01-01'' empty_world)) \<noteq> 0
   \<and> json_report (snd (main 70 ''2026-01-01'' empty_world)) = NoFile
   \<and> md_report (snd (main 70 ''2026-01-01'' empty_world)) = None
   \<and> stdout (snd (main 70 ''2026-01-01'' empty_world)) = []
   \<and> exit_code (fst (main 70 ''2026-01-01'' (empty_world\<lparr>spec_file := Unreadable\<rparr>))) \<noteq> 0
   \<and> json_report (snd (main 70 ''2026-01-01'' (empty_world\<lparr>spec_file := Unreadable\<rparr>)))
       = NoFile
   \<and> md_report (snd (main 70 ''2026-01-01'' (empty_world\<lparr>spec_file := Unreadable\<rparr>))) = None"
proof -
  have h1: "spec_file empty_world = Absent \<or> spec_file empty_world = Unreadable"
    by (simp add: empty_world_def)
  have h2: "spec_file (empty_world\<lparr>spec_file := Unreadable\<rparr>) = Absent
      \<or> spec_file (empty_world\<lparr>spec_file := Unreadable\<rparr>) = Unreadable"
    by simp
  note t1 = missing_spec_aborts [OF h1, of 70 "''2026-01-01''"]
  note t2 = missing_spec_aborts [OF h2, of 70 "''2026-01-01''"]
  have e: "json_report empty_world = NoFile" "md_report empty_world = None"
    "stdout empty_world = []"
    "json_report (empty_world\<lparr>spec_file := Unreadable\<rparr>) = NoFile"
    "md_report (empty_world\<lparr>spec_file := Unreadable\<rparr>) = None"
    by (simp_all add: empty_world_def)
  from t1 t2 e show ?thesis by simp
qed

text \<open>
  Claim C10. When the primary specification document exists and is empty, the command
  does what it does when the document is missing: it returns 1, prints the same message
  on the standard error stream and changes nothing else, so that neither report file is
  written.
\<close>

theorem empty_spec_aborts_like_missing:
  assumes "spec_file w = Text []"
  shows "main threshold now w = (Inr 1, w\<lparr>stderr := stderr w @ [SpecNotFound]\<rparr>)
    \<and> main threshold now (w\<lparr>spec_file := Absent\<rparr>)
        = (Inr 1, w\<lparr>spec_file := Absent, stderr := stderr w @ [SpecNotFound]\<rparr>)
    \<and> exit_code (fst (main threshold now w)) \<noteq> 0
    \<and> json_report (snd (main threshold now w)) = json_report w
    \<and> md_report (snd (main threshold now w)) = md_report w"
  using assms by (simp add: main_def read_text_def exit_code_def)

theorem empty_spec_aborts_like_missing_witness:
  "main 70 ''2026-01-01'' (empty_world\<lparr>spec_file := Text []\<rparr>)
     = (Inr 1, empty_world\<lparr>spec_file := Text [], stderr := [SpecNotFound]\<rparr>)
   \<and> exit_code (fst (main 70 ''2026-01-01'' (empty_world\<lparr>spec_file := Text []\<rparr>))) \<noteq> 0"
proof -
  have h: "spec_file (empty_world\<lparr>spec_file := Text []\<rparr>) = Text []" by simp
  note t = empty_spec_aborts_like_missing [OF h, of 70 "''2026-01-01''"]
  have e: "stderr (empty_world\<lparr>spec_file := Text []\<rparr>) = []" by (simp add: empty_world_def)
  from t e show ?thesis by (simp add: exit_code_def)
qed


section \<open>spec\_diff.py: the mapping artifact\<close>

lemma read_text_readable:
  "f \<noteq> Unreadable \<Longrightarrow> \<exists>s. read_text f = Inr s"
  by (cases f) (simp_all add: read_text_def)

lemma first_run_reaches_mapping:
  assumes "spec_file w = Text s" and "s \<noteq> []" and "json_report w = NoFile"
    and "delta_doc_en w \<noteq> Unreadable" and "delta_doc_ja w \<noteq> Unreadable"
    and "section_mapping (load_mapping_data (mapping_json w)) = Inl e"
  shows "main threshold now w = (Inl e, w)"
proof -
  obtain en where en: "read_text (delta_doc_en w) = Inr en"
    using read_text_readable [OF assms(4)] by blast
  obtain ja where ja: "read_text (delta_doc_ja w) = Inr ja"
    using read_text_readable [OF assms(5)] by blast
  have nt: "\<not> truthy (JObj [])" by (simp add: truthy_def)
  show ?thesis
    using assms(1,2,3,6) en ja
    by (simp add: main_def read_text_def load_previous_report_def py_get_def
        build_section_infos_def section_infos_of_empty_baseline [OF nt] prev_titles_of_def nt)
qed

text \<open>
  Claim C4. On a first run (no earlier JSON report) with a non-empty specification and
  readable companion documents, a mapping artifact that parses to an object whose
  \<open>section_coverage_percent\<close> is \<open>null\<close> makes \<open>float(None)\<close> raise a \<open>TypeError\<close> that
  leaves \<open>main\<close>: the exit code is 1, and neither the JSON report nor the formatted
  report is written. So the run does raise past the top level for a parsable artifact,
  against the claim.
\<close>

theorem null_mapping_field_raises:
  assumes "spec_file w = Text s" and "s \<noteq> []" and "json_report w = NoFile"
    and "delta_doc_en w \<noteq> Unreadable" and "delta_doc_ja w \<noteq> Unreadable"
    and "mapping_json w = Parsed (JObj kvs)"
    and "map_of kvs ''section_coverage_percent'' = Some JNull"
  shows "main threshold now w = (Inl TypeError, w)
    \<and> exit_code (fst (main threshold now w)) = 1
    \<and> json_report (snd (main threshold now w)) = NoFile
    \<and> md_report (snd (main threshold now w)) = md_report w"
proof -
  have ne: "kvs \<noteq> []" using assms(7) by auto
  have "section_mapping (load_mapping_data (mapping_json w)) = Inl TypeError"
    using assms(6,7) ne
    by (simp add: section_mapping_def load_mapping_data_def mapping_field_def truthy_def
        py_get_def py_float_def)
  from first_run_reaches_mapping [OF assms(1-5) this, of threshold now] assms(3)
  show ?thesis by (simp add: exit_code_def)
qed

theorem null_mapping_field_raises_witness:
  "main 70 ''2026-01-01''
     (empty_world\<lparr>spec_file := Text ''## 1. Overview'',
        mapping_json := Parsed (JObj [(''section_coverage_percent'', JNull)])\<rparr>)
   = (Inl TypeError,
      empty_world\<lparr>spec_file := Text ''## 1. Overview'',
        mapping_json := Parsed (JObj [(''section_coverage_percent'', JNull)])\<rparr>)
   \<and> md_report (snd (main 70 ''2026-01-01''
     (empty_world\<lparr>spec_file := Text ''## 1. Overview'',
        mapping_json := Parsed (JObj [(''section_coverage_percent'', JNull)])\<rparr>))) = None"
proof -
  let ?w = "empty_world\<lparr>spec_file := Text ''## 1. Overview'',
        mapping_json := Parsed (JObj [(''section_coverage_percent'', JNull)])\<rparr>"
  have h1: "spec_file ?w = Text ''## 1. Overview''" by simp
  have h2: "''## 1. Overview'' \<noteq> []" by simp
  have h3: "json_report ?w = NoFile" by (simp add: empty_world_def)
  have h4: "delta_doc_en ?w \<noteq> Unreadable" by (simp add: empty_world_def)
  have h5: "delta_doc_ja ?w \<noteq> Unreadable" by (simp add: empty_world_def)
  have h6: "mapping_json ?w = Parsed (JObj [(''section_coverage_percent'', JNull)])" by simp
  have h7: "map_of [(''section_coverage_percent'', JNull)] ''section_coverage_percent'' = Some JNull"
    by simp
  have m: "md_report ?w = None" by (simp add: empty_world_def)
  note t = null_mapping_field_raises [OF h1 h2 h3 h4 h5 h6 h7, of 70 "''2026-01-01''"]
  from t m show ?thesis by simp
qed

lemma non_dict_mapping_raises:
  assumes "spec_file w = Text s" and "s \<noteq> []" and "json_report w = NoFile"
    and "delta_doc_en w \<noteq> Unreadable" and "delta_doc_ja w \<noteq> Unreadable"
    and "mapping_json w = Parsed (JArr (x # xs))"
  shows "main threshold now w = (Inl AttributeError, w)"
proof -
  have "section_mapping (load_mapping_data (mapping_json w)) = Inl AttributeError"
    using assms(6)
    by (simp add: section_mapping_def load_mapping_data_def mapping_field_def truthy_def
        py_get_def)
  from first_run_reaches_mapping [OF assms(1-5) this] show ?thesis .
qed

lemma non_iterable_unmapped_leaves_json_only:
  assumes "spec_file w = Text s" and "s \<noteq> []" and "json_report w = NoFile"
    and "delta_doc_en w \<noteq> Unreadable" and "delta_doc_ja w \<noteq> Unreadable"
    and "mapping_json w = Parsed (JObj [(''unmapped_sections'', JInt 5)])"
  shows "fst (main threshold now w) = Inl TypeError
    \<and> (\<exists>j. json_report (snd (main threshold now w)) = Parsed j)
    \<and> md_report (snd (main threshold now w)) = md_report w"
proof -
  obtain en where en: "read_text (delta_doc_en w) = Inr en"
    using read_text_readable [OF assms(4)] by blast
  obtain ja where ja: "read_text (delta_doc_ja w) = Inr ja"
    using read_text_readable [OF assms(5)] by blast
  have nt: "\<not> truthy (JObj [])" by (simp add: truthy_def)
  have sm: "section_mapping (load_mapping_data (mapping_json w))
      = Inr (JObj [(''section_coverage_percent'', JFloat 0), (''mapped_section_count'', JInt 0),
                   (''total_section_count'', JInt 0), (''unmapped_sections'', JInt 5)])"
    using assms(6)
    by (simp add: section_mapping_def load_mapping_data_def mapping_field_def truthy_def
        py_get_def py_float_def py_int_def)
  have ms: "mapping_summary_of (JObj [(''section_coverage_percent'', JFloat 0),
        (''mapped_section_count'', JInt 0),
        (''total_section_count'', JInt 0), (''unmapped_sections'', JInt 5)])
      = Some [(''section_coverage_percent'', JFloat 0), (''mapped_section_count'', JInt 0),
                   (''total_section_count'', JInt 0), (''unmapped_sections'', JInt 5)]"
    by (simp add: mapping_summary_of_def lookup_or_def)
  have mb: "mapping_block [(''section_coverage_percent'', JFloat 0),
        (''mapped_section_count'', JInt 0),
        (''total_section_count'', JInt 0), (''unmapped_sections'', JInt 5)] = Inl TypeError"
    by (simp add: mapping_block_def lookup_or_def truthy_def py_iter_def)
  have gm: "\<And>a b c d e f. generate_markdown a b c d e f
      (Some [(''section_coverage_percent'', JFloat 0), (''mapped_section_count'', JInt 0),
                   (''total_section_count'', JInt 0), (''unmapped_sections'', JInt 5)])
      = Inl TypeError"
    by (simp add: generate_markdown_def mb Let_def)
  show ?thesis
    using assms(1,2,3) en ja
    by (simp add: main_def read_text_def load_previous_report_def py_get_def
        build_section_infos_def section_infos_of_empty_baseline [OF nt] prev_titles_of_def nt
        sm ms gm Let_def)
qed


section \<open>spec\_diff.py: the changed flag\<close>

text \<open>
  Claim C7. Whenever \<open>build_section_infos\<close> returns, it returns one record for each
  section of the document, in order, with the section's title, the digest of its trimmed
  body, and a changed flag that is true iff the snapshot holds the title with a stored
  hash that differs from that digest. It returns for every snapshot whose entries are
  objects (every report the command writes is one). A title that is no key of the
  snapshot has no previous hash, so its section is not changed. A snapshot file that is
  missing, unreadable or no JSON gives the empty baseline, for which no section is changed.
\<close>

theorem changed_iff_snapshot_hash_differs:
  "(\<forall>infos. build_section_infos spec previous = Inr infos \<longrightarrow>
       infos = map (\<lambda>tb. \<lparr>title = fst tb, hash = sha256 (snd tb),
                  changed = spec_changed previous (fst tb) (sha256 (snd tb))\<rparr>)
                 (extract_sections spec))
   \<and> (entries_are_objects previous \<longrightarrow>
        (\<exists>infos. build_section_infos spec previous = Inr infos))
   \<and> (\<forall>kvs. previous = JObj kvs \<longrightarrow> map_of kvs t = None \<longrightarrow>
        prev_hash_of previous t = Inr JNull)
   \<and> (f = NoFile \<or> f = NoAccess \<or> f = NotJson \<longrightarrow>
        py_get (load_previous_report f) ''sections'' (JObj []) = Inr (JObj [])
      \<and> build_section_infos spec (JObj [])
          = Inr (map (\<lambda>tb. \<lparr>title = fst tb, hash = sha256 (snd tb), changed = False\<rparr>)
                   (extract_sections spec)))"
proof -
  have nt: "\<not> truthy (JObj [])" by (simp add: truthy_def)
  have 1: "\<forall>infos. build_section_infos spec previous = Inr infos \<longrightarrow>
       infos = map (\<lambda>tb. \<lparr>title = fst tb, hash = sha256 (snd tb),
                  changed = spec_changed previous (fst tb) (sha256 (snd tb))\<rparr>)
                 (extract_sections spec)"
    unfolding build_section_infos_def by (blast dest: section_infos_of_value)
  have 2: "entries_are_objects previous \<longrightarrow>
        (\<exists>infos. build_section_infos spec previous = Inr infos)"
    unfolding build_section_infos_def by (blast dest: section_infos_of_total)
  have 3: "\<forall>kvs. previous = JObj kvs \<longrightarrow> map_of kvs t = None \<longrightarrow>
        prev_hash_of previous t = Inr JNull"
    by (simp add: prev_hash_of_def py_get_def)
  have 4: "f = NoFile \<or> f = NoAccess \<or> f = NotJson \<longrightarrow>
        py_get (load_previous_report f) ''sections'' (JObj []) = Inr (JObj [])
      \<and> build_section_infos spec (JObj [])
          = Inr (map (\<lambda>tb. \<lparr>title = fst tb, hash = sha256 (snd tb), changed = False\<rparr>)
                   (extract_sections spec))"
    using section_infos_of_empty_baseline [OF nt]
    by (auto simp: load_previous_report_def py_get_def build_section_infos_def)
  from 1 2 3 4 show ?thesis by (intro conjI)
qed

theorem changed_iff_snapshot_hash_differs_witness:
  "build_section_infos (join_lines [''## A'', ''x'', ''## B'', ''x'', ''## C'', ''x''])
     (JObj [(''A'', JObj [(''hash'', JStr ''a1fce4363854ff888cff4b8e7875d600c2682390412a8cf79b37d0b11148b0fa'')]),
            (''B'', JObj [(''hash'', JStr ''2d711642b726b04401627ca9fbac32f5c8530fb1903cc4db02258717921a4881'')])])
   = Inr [\<lparr>title = ''A'', hash = ''2d711642b726b04401627ca9fbac32f5c8530fb1903cc4db02258717921a4881'', changed = True\<rparr>,
          \<lparr>title = ''B'', hash = ''2d711642b726b04401627ca9fbac32f5c8530fb1903cc4db02258717921a4881'', changed = False\<rparr>,
          \<lparr>title = ''C'', hash = ''2d711642b726b04401627ca9fbac32f5c8530fb1903cc4db02258717921a4881'', changed = False\<rparr>]
   \<and> py_get (load_previous_report NotJson) ''sections'' (JObj []) = Inr (JObj [])
   \<and> build_section_infos (join_lines [''## A'', ''x'', ''## B'', ''x'', ''## C'', ''x'']) (JObj [])
   = Inr [\<lparr>title = ''A'', hash = ''2d711642b726b04401627ca9fbac32f5c8530fb1903cc4db02258717921a4881'', changed = False\<rparr>,
          \<lparr>title = ''B'', hash = ''2d711642b726b04401627ca9fbac32f5c8530fb1903cc4db02258717921a4881'', changed = False\<rparr>,
          \<lparr>title = ''C'', hash = ''2d711642b726b04401627ca9fbac32f5c8530fb1903cc4db02258717921a4881'', changed = False\<rparr>]"
proof -
  let ?doc = "join_lines [''## A'', ''x'', ''## B'', ''x'', ''## C'', ''x'']"
  let ?prev = "JObj [(''A'', JObj [(''hash'', JStr ''a1fce4363854ff888cff4b8e7875d600c2682390412a8cf79b37d0b11148b0fa'')]),
            (''B'', JObj [(''hash'', JStr ''2d711642b726b04401627ca9fbac32f5c8530fb1903cc4db02258717921a4881'')])]"
  note t = changed_iff_snapshot_hash_differs [of ?doc ?prev "''C''" NotJson]
  have ok: "entries_are_objects ?prev"
    by (simp add: entries_are_objects_def is_object_def)
  from t [THEN conjunct2, THEN conjunct1, THEN mp, OF ok] obtain infos where
    i: "build_section_infos ?doc ?prev = Inr infos" by blast
  from t [THEN conjunct1, THEN spec, THEN mp, OF i]
  have v: "infos = map (\<lambda>tb. \<lparr>title = fst tb, hash = sha256 (snd tb),
                  changed = spec_changed ?prev (fst tb) (sha256 (snd tb))\<rparr>)
                 (extract_sections ?doc)" .
  have a: "build_section_infos ?doc ?prev
     = Inr [\<lparr>title = ''A'', hash = ''2d711642b726b04401627ca9fbac32f5c8530fb1903cc4db02258717921a4881'', changed = True\<rparr>,
          \<lparr>title = ''B'', hash = ''2d711642b726b04401627ca9fbac32f5c8530fb1903cc4db02258717921a4881'', changed = False\<rparr>,
          \<lparr>title = ''C'', hash = ''2d711642b726b04401627ca9fbac32f5c8530fb1903cc4db02258717921a4881'', changed = False\<rparr>]"
    unfolding i v extract_sections_three by (simp add: spec_changed_def snapshot_hash_def sha256_x)
  have nj: "NotJson = NoFile \<or> NotJson = NoAccess \<or> NotJson = NotJson" by simp
  note e = t [THEN conjunct2, THEN conjunct2, THEN conjunct2, THEN mp, OF nj]
  have b: "build_section_infos ?doc (JObj [])
   = Inr [\<lparr>title = ''A'', hash = ''2d711642b726b04401627ca9fbac32f5c8530fb1903cc4db02258717921a4881'', changed = False\<rparr>,
          \<lparr>title = ''B'', hash = ''2d711642b726b04401627ca9fbac32f5c8530fb1903cc4db02258717921a4881'', changed = False\<rparr>,
          \<lparr>title = ''C'', hash = ''2d711642b726b04401627ca9fbac32f5c8530fb1903cc4db02258717921a4881'', changed = False\<rparr>]"
    unfolding e [THEN conjunct2] extract_sections_three by (simp add: sha256_x)
  from a e [THEN conjunct1] b show ?thesis by (intro conjI)
qed


section \<open>spec\_diff.py: keyword presence\<close>



lemma newline_joins_documents:
  "keyword_present [''low'', ''power''] ''Low Power''
   \<and> \<not> spec_keyword_present [''low'', ''power''] ''Low Power''"
  by code_simp


section \<open>spec\_diff.py: two runs in a row\<close>

text \<open>
  Claim C2, amended. Let a run of \<open>main\<close> return 0, and run \<open>main\<close> again on the files it
  leaves (same specification, companion documents, mapping artifact and threshold; the
  report of the first run is the snapshot). The second run returns 0 as well; its JSON
  report has empty lists of new and removed sections and the flag \<open>changed\<close> false in
  every entry of \<open>sections\<close>; and a section of its list, hence a row of the formatted
  report, is flagged changed iff the last section with the same title has another digest.
  So no section is flagged when the titles of the document are distinct.
\<close>

theorem second_run_reports_no_drift:
  assumes "main threshold now w = (Inr 0, w1)"
  shows "\<exists>s secs cov sm md.
       spec_file w1 = Text s
     \<and> map title secs = map fst (extract_sections s)
     \<and> map hash secs = map (\<lambda>tb. sha256 (snd tb)) (extract_sections s)
     \<and> main threshold now2 w1
         = (Inr 0,
            w1\<lparr>json_report := Parsed (report_json now2 threshold secs [] [] cov sm),
               md_report := Some md,
               stdout := stdout w1 @ [ReportWritten, MarkdownWritten],
               stderr := stderr w1 @ (if coverage_score cov < threshold
                  then [BelowThreshold (coverage_score cov) threshold] else [])\<rparr>)
     \<and> generate_markdown now2 secs cov (coverage_score cov) [] [] (mapping_summary_of sm)
         = Inr md
     \<and> (\<forall>u\<in>set secs. changed u \<longleftrightarrow>
          (case find (\<lambda>v. title v = title u) (rev secs) of
             Some v \<Rightarrow> hash v \<noteq> hash u | None \<Rightarrow> False))
     \<and> (distinct (map title secs) \<longrightarrow> (\<forall>u\<in>set secs. \<not> changed u))
     \<and> (\<forall>t e. map_of (sections_dict secs) t = Some e \<longrightarrow>
          py_get e ''changed'' JNull = Inr (JBool False))"
proof -
  from main_success [OF assms] obtain s prev secs1 pt en ja sm md1 where
    sf: "spec_file w = Text s" and ne: "s \<noteq> []"
    and b1: "build_section_infos s prev = Inr secs1"
    and en: "read_text (delta_doc_en w) = Inr en"
    and ja: "read_text (delta_doc_ja w) = Inr ja"
    and sm: "section_mapping (load_mapping_data (mapping_json w)) = Inr sm"
    and g1: "generate_markdown now secs1 (keyword_coverage [en, ja])
           (coverage_score (keyword_coverage [en, ja]))
           (sorted_difference (map title secs1) pt) (sorted_difference pt (map title secs1))
           (mapping_summary_of sm) = Inr md1"
    and w1: "w1 = w\<lparr>json_report := Parsed (report_json now threshold secs1
              (sorted_difference (map title secs1) pt) (sorted_difference pt (map title secs1))
              (keyword_coverage [en, ja]) sm),
         md_report := Some md1,
         stdout := stdout w @ [ReportWritten, MarkdownWritten],
         stderr := stderr w @ (if coverage_score (keyword_coverage [en, ja]) < threshold
            then [BelowThreshold (coverage_score (keyword_coverage [en, ja])) threshold]
            else [])\<rparr>"
    by blast
  let ?cov = "keyword_coverage [en, ja]"
  let ?prev2 = "JObj (sections_dict secs1)"
  have v1: "secs1 = map (\<lambda>tb. \<lparr>title = fst tb, hash = sha256 (snd tb),
          changed = spec_changed prev (fst tb) (sha256 (snd tb))\<rparr>) (extract_sections s)"
    using b1 unfolding build_section_infos_def by (rule section_infos_of_value)
  from section_infos_of_total [OF sections_dict_objects, of secs1 "extract_sections s"]
  obtain secs2 where b2: "build_section_infos s ?prev2 = Inr secs2"
    unfolding build_section_infos_def by blast
  have v2: "secs2 = map (\<lambda>tb. \<lparr>title = fst tb, hash = sha256 (snd tb),
          changed = spec_changed ?prev2 (fst tb) (sha256 (snd tb))\<rparr>) (extract_sections s)"
    using b2 unfolding build_section_infos_def by (rule section_infos_of_value)
  have t1: "map title secs1 = map fst (extract_sections s)"
    unfolding v1 by (simp add: comp_def)
  have t2: "map title secs2 = map fst (extract_sections s)"
    unfolding v2 by (simp add: comp_def)
  have h2: "map hash secs2 = map (\<lambda>tb. sha256 (snd tb)) (extract_sections s)"
    unfolding v2 by (simp add: comp_def)
  from prev_titles_of_sections_dict [of secs1] obtain pt2 where
    p2: "prev_titles_of ?prev2 = Inr pt2" and sp: "set pt2 = set (map title secs1)" by blast
  have same: "set (map title secs2) = set pt2" using sp t1 t2 by simp
  have ns: "sorted_difference (map title secs2) pt2 = []"
    by (rule sorted_difference_same) (rule same)
  have rs: "sorted_difference pt2 (map title secs2) = []"
    by (rule sorted_difference_same) (rule same [symmetric])
  from generate_markdown_total [OF g1] obtain md2 where
    g2: "generate_markdown now2 secs2 ?cov (coverage_score ?cov) [] []
           (mapping_summary_of sm) = Inr md2" by blast
  have sf1: "spec_file w1 = Text s" using sf w1 by simp
  have pg: "py_get (load_previous_report (json_report w1)) ''sections'' (JObj []) = Inr ?prev2"
    using w1 by (simp add: load_previous_report_def report_json_def py_get_def)
  have en1: "read_text (delta_doc_en w1) = Inr en" using en w1 by simp
  have ja1: "read_text (delta_doc_ja w1) = Inr ja" using ja w1 by simp
  have sm1: "section_mapping (load_mapping_data (mapping_json w1)) = Inr sm" using sm w1 by simp
  have g2': "generate_markdown now2 secs2 ?cov (coverage_score ?cov)
           (sorted_difference (map title secs2) pt2) (sorted_difference pt2 (map title secs2))
           (mapping_summary_of sm) = Inr md2"
    unfolding ns rs by (rule g2)
  have run2: "main threshold now2 w1
         = (Inr 0,
            w1\<lparr>json_report := Parsed (report_json now2 threshold secs2 [] [] ?cov sm),
               md_report := Some md2,
               stdout := stdout w1 @ [ReportWritten, MarkdownWritten],
               stderr := stderr w1 @ (if coverage_score ?cov < threshold
                  then [BelowThreshold (coverage_score ?cov) threshold] else [])\<rparr>)"
    using main_returns [OF sf1 ne pg b2 p2 en1 ja1 sm1 g2', of threshold] unfolding ns rs .
  have fl: "\<forall>u\<in>set secs2. changed u \<longleftrightarrow>
          (case find (\<lambda>v. title v = title u) (rev secs2) of
             Some v \<Rightarrow> hash v \<noteq> hash u | None \<Rightarrow> False)"
    by (rule second_run_flags [OF v1 v2])
  have di: "distinct (map title secs2) \<longrightarrow> (\<forall>u\<in>set secs2. \<not> changed u)"
    using flags_distinct [OF fl] by blast
  have js: "\<forall>t e. map_of (sections_dict secs2) t = Some e \<longrightarrow>
          py_get e ''changed'' JNull = Inr (JBool False)"
    using flags_json [OF fl] by blast
  from sf1 t2 h2 run2 g2 fl di js show ?thesis by blast
qed

theorem second_run_reports_no_drift_witness:
  "fst (main 70 ''2026-01-01''
      (empty_world\<lparr>spec_file := Text (join_lines [''## A'', ''x'', ''## B'', ''y''])\<rparr>)) = Inr 0
   \<and> fst (main 70 ''2026-01-02'' (snd (main 70 ''2026-01-01''
      (empty_world\<lparr>spec_file := Text (join_lines [''## A'', ''x'', ''## B'', ''y''])\<rparr>)))) = Inr 0
   \<and> (\<exists>j. json_report (snd (main 70 ''2026-01-02'' (snd (main 70 ''2026-01-01''
      (empty_world\<lparr>spec_file := Text (join_lines [''## A'', ''x'', ''## B'', ''y''])\<rparr>)))))
          = Parsed j
        \<and> py_get j ''new_sections'' JNull = Inr (JArr [])
        \<and> py_get j ''removed_sections'' JNull = Inr (JArr []))
   \<and> (\<exists>md. md_report (snd (main 70 ''2026-01-02'' (snd (main 70 ''2026-01-01''
      (empty_world\<lparr>spec_file := Text (join_lines [''## A'', ''x'', ''## B'', ''y''])\<rparr>)))))
          = Some md
        \<and> HashRow ''A'' (take 12 (sha256 ''x'')) False \<in> set md
        \<and> HashRow ''B'' (take 12 (sha256 ''y'')) False \<in> set md)"
proof -
  let ?doc = "join_lines [''## A'', ''x'', ''## B'', ''y'']"
  let ?w = "empty_world\<lparr>spec_file := Text ?doc\<rparr>"
  have ne: "?doc \<noteq> []" by (simp add: join_lines_def)
  have "\<exists>ns rs sm md. main 70 ''2026-01-01'' ?w
    = (Inr 0,
       ?w\<lparr>json_report := Parsed (report_json ''2026-01-01'' 70
              (map (\<lambda>tb. \<lparr>title = fst tb, hash = sha256 (snd tb), changed = False\<rparr>)
                 (extract_sections ?doc))
              ns rs (keyword_coverage [[], []]) sm),
         md_report := Some md,
         stdout := stdout ?w @ [ReportWritten, MarkdownWritten],
         stderr := stderr ?w @ (if coverage_score (keyword_coverage [[], []]) < 70
            then [BelowThreshold (coverage_score (keyword_coverage [[], []])) 70]
            else [])\<rparr>)"
    by (rule fresh_run) (simp_all add: empty_world_def ne)
  then obtain w1 where r1: "main 70 ''2026-01-01'' ?w = (Inr 0, w1)" by blast
  from second_run_reports_no_drift [OF r1, of "''2026-01-02''"]
  obtain s secs cov sm md where
    sf: "spec_file w1 = Text s"
    and ti: "map title secs = map fst (extract_sections s)"
    and ha: "map hash secs = map (\<lambda>tb. sha256 (snd tb)) (extract_sections s)"
    and r2: "main 70 ''2026-01-02'' w1
         = (Inr 0,
            w1\<lparr>json_report := Parsed (report_json ''2026-01-02'' 70 secs [] [] cov sm),
               md_report := Some md,
               stdout := stdout w1 @ [ReportWritten, MarkdownWritten],
               stderr := stderr w1 @ (if coverage_score cov < 70
                  then [BelowThreshold (coverage_score cov) 70] else [])\<rparr>)"
    and g: "generate_markdown ''2026-01-02'' secs cov (coverage_score cov) [] []
         (mapping_summary_of sm) = Inr md"
    and di: "distinct (map title secs) \<longrightarrow> (\<forall>u\<in>set secs. \<not> changed u)"
    by blast
  have "spec_file w1 = Text ?doc" using r1 fresh_run [of ?w ?doc 70 "''2026-01-01''"] ne
    by (auto simp: empty_world_def)
  then have s: "s = ?doc" using sf by simp
  have ti': "map title secs = [''A'', ''B'']" using ti unfolding s extract_sections_two by simp
  have ha': "map hash secs = [sha256 ''x'', sha256 ''y'']"
    using ha unfolding s extract_sections_two by simp
  have "distinct (map title secs)" unfolding ti' by simp
  with di have nc: "\<forall>u\<in>set secs. \<not> changed u" by blast
  from ti' obtain a b where ab: "secs = [a, b]" by (auto simp: map_eq_Cons_conv)
  have ra: "HashRow (title a) (take 12 (hash a)) (changed a) \<in> set md"
    by (rule hash_rows_in_markdown [OF g]) (simp add: ab)
  have rb: "HashRow (title b) (take 12 (hash b)) (changed b) \<in> set md"
    by (rule hash_rows_in_markdown [OF g]) (simp add: ab)
  have rows: "HashRow ''A'' (take 12 (sha256 ''x'')) False \<in> set md
        \<and> HashRow ''B'' (take 12 (sha256 ''y'')) False \<in> set md"
    using ra rb ti' ha' nc unfolding ab by simp
  have 1: "fst (main 70 ''2026-01-01'' ?w) = Inr 0" using r1 by simp
  have e: "snd (main 70 ''2026-01-01'' ?w) = w1" using r1 by simp
  have 2: "fst (main 70 ''2026-01-02'' w1) = Inr 0" using r2 by simp
  have 3: "\<exists>j. json_report (snd (main 70 ''2026-01-02'' w1)) = Parsed j
        \<and> py_get j ''new_sections'' JNull = Inr (JArr [])
        \<and> py_get j ''removed_sections'' JNull = Inr (JArr [])"
    unfolding r2 by (simp add: report_json_def py_get_def)
  have 4: "\<exists>md. md_report (snd (main 70 ''2026-01-02'' w1)) = Some md
        \<and> HashRow ''A'' (take 12 (sha256 ''x'')) False \<in> set md
        \<and> HashRow ''B'' (take 12 (sha256 ''y'')) False \<in> set md"
    unfolding r2 using rows by simp
  from 1 2 3 4 show ?thesis unfolding e by (intro conjI)
qed

text \<open>
  Claim C2 as stated fails: when two sections have the title \<open>A\<close> and the bodies \<open>x\<close> and
  \<open>y\<close>, the snapshot keeps the digest of the last one under \<open>A\<close>, and the second run with
  unchanged inputs marks the first section changed in the formatted report.
\<close>

theorem duplicate_title_marked_changed:
  "fst (main 70 ''2026-01-01''
      (empty_world\<lparr>spec_file := Text (join_lines [''## A'', ''x'', ''## A'', ''y''])\<rparr>)) = Inr 0
   \<and> fst (main 70 ''2026-01-02'' (snd (main 70 ''2026-01-01''
      (empty_world\<lparr>spec_file := Text (join_lines [''## A'', ''x'', ''## A'', ''y''])\<rparr>)))) = Inr 0
   \<and> (\<exists>md. md_report (snd (main 70 ''2026-01-02'' (snd (main 70 ''2026-01-01''
      (empty_world\<lparr>spec_file := Text (join_lines [''## A'', ''x'', ''## A'', ''y''])\<rparr>)))))
          = Some md
        \<and> HashRow ''A'' (take 12 (sha256 ''x'')) True \<in> set md)"
proof -
  let ?doc = "join_lines [''## A'', ''x'', ''## A'', ''y'']"
  let ?w = "empty_world\<lparr>spec_file := Text ?doc\<rparr>"
  let ?secs1 = "[\<lparr>title = ''A'', hash = sha256 ''x'', changed = False\<rparr>,
                 \<lparr>title = ''A'', hash = sha256 ''y'', changed = False\<rparr>]"
  let ?secs2 = "[\<lparr>title = ''A'', hash = sha256 ''x'', changed = True\<rparr>,
                 \<lparr>title = ''A'', hash = sha256 ''y'', changed = False\<rparr>]"
  let ?prev2 = "JObj [(''A'', asdict \<lparr>title = ''A'', hash = sha256 ''y'', changed = False\<rparr>)]"
  have ne: "?doc \<noteq> []" by (simp add: join_lines_def)
  have nt: "\<not> truthy (JObj [])" by (simp add: truthy_def)
  have sf: "spec_file ?w = Text ?doc" by simp
  have pg: "py_get (load_previous_report (json_report ?w)) ''sections'' (JObj []) = Inr (JObj [])"
    by (simp add: empty_world_def load_previous_report_def py_get_def)
  have b1: "build_section_infos ?doc (JObj []) = Inr ?secs1"
    unfolding build_section_infos_def extract_sections_duplicate
      section_infos_of_empty_baseline [OF nt]
    by simp
  have pt: "prev_titles_of (JObj []) = Inr []" using nt by (simp add: prev_titles_of_def)
  have a: "delta_doc_en ?w = Absent" "delta_doc_ja ?w = Absent" "mapping_json ?w = NoFile"
    by (simp_all add: empty_world_def)
  from run_without_mapping [OF sf ne pg b1 pt a, of 70 "''2026-01-01''"]
  obtain j1 md1 out1 err1 where
    r1: "main 70 ''2026-01-01'' ?w
      = (Inr 0, ?w\<lparr>json_report := Parsed j1, md_report := Some md1,
                    stdout := out1, stderr := err1\<rparr>)"
    and j1: "py_get j1 ''sections'' (JObj []) = Inr (JObj (sections_dict ?secs1))"
    by blast
  let ?w1 = "?w\<lparr>json_report := Parsed j1, md_report := Some md1, stdout := out1, stderr := err1\<rparr>"
  have sd: "sections_dict ?secs1
      = [(''A'', asdict \<lparr>title = ''A'', hash = sha256 ''y'', changed = False\<rparr>)]"
    by (simp add: sections_dict_def)
  have sf1: "spec_file ?w1 = Text ?doc" by simp
  have pg1: "py_get (load_previous_report (json_report ?w1)) ''sections'' (JObj []) = Inr ?prev2"
    using j1 unfolding sd by (simp add: load_previous_report_def)
  have dg: "sha256 ''y'' \<noteq> sha256 ''x''" by (simp add: sha256_x sha256_y)
  have b2: "build_section_infos ?doc ?prev2 = Inr ?secs2"
    unfolding build_section_infos_def extract_sections_duplicate
    using dg by (simp add: prev_hash_of_def truthy_def py_get_def asdict_def)
  have pt2: "prev_titles_of ?prev2 = Inr [''A'']"
    by (simp add: prev_titles_of_def truthy_def py_keys_def)
  have a1: "delta_doc_en ?w1 = Absent" "delta_doc_ja ?w1 = Absent" "mapping_json ?w1 = NoFile"
    by (simp_all add: empty_world_def)
  from run_without_mapping [OF sf1 ne pg1 b2 pt2 a1, of 70 "''2026-01-02''"]
  obtain j2 md2 out2 err2 where
    r2: "main 70 ''2026-01-02'' ?w1
      = (Inr 0, ?w1\<lparr>json_report := Parsed j2, md_report := Some md2,
                    stdout := out2, stderr := err2\<rparr>)"
    and rows: "\<forall>u\<in>set ?secs2. HashRow (title u) (take 12 (hash u)) (changed u) \<in> set md2"
    by blast
  have row: "HashRow ''A'' (take 12 (sha256 ''x'')) True \<in> set md2"
    using rows by simp
  have 1: "fst (main 70 ''2026-01-01'' ?w) = Inr 0" unfolding r1 by simp
  have e: "snd (main 70 ''2026-01-01'' ?w) = ?w1" unfolding r1 by simp
  have 2: "fst (main 70 ''2026-01-02'' ?w1) = Inr 0" unfolding r2 by simp
  have 3: "\<exists>md. md_report (snd (main 70 ''2026-01-02'' ?w1)) = Some md
        \<and> HashRow ''A'' (take 12 (sha256 ''x'')) True \<in> set md"
    unfolding r2 using row by simp
  from 1 2 3 show ?thesis unfolding e by (intro conjI)
qed


end
